theory Spec2Isabelle
  imports Main "HOL-Library.Sublist" "HOL-Library.Multiset"
begin

section \<open>Printer discovery (printer\_discovery.py, class CanonPrinterDiscovery)\<close>

text \<open>
  Python strings are modelled as lists of characters with the codes 0 to 255. \<open>lower\<close>
  and \<open>upper\<close> change the letters \<open>A-Z\<close> and \<open>a-z\<close> only, which is what \<open>str.lower\<close> and
  \<open>str.upper\<close> do on ASCII text. The vendor keywords and the letters of the title pattern
  are ASCII, and no other character is lower-cased to an ASCII letter, so the keyword
  tests read \<open>lower\<close> as the code does. \<open>str.upper\<close> changes other characters
  too (and may lengthen the text), so what is stated about upper-cased text is stated for
  ASCII text (\<open>is_ascii\<close>). The white-space class is the one of \<open>str.isspace\<close> and of
  \<open>\s\<close> on the codes 0 to 255.
\<close>

subsection \<open>Python values and dictionaries\<close>

datatype pyval =
    PNone
  | PBool bool
  | PInt int
  | PStr string
  | PList "pyval list"
  | PDict "(string \<times> pyval) list"

text \<open>A dictionary with string keys, in insertion order.\<close>

type_synonym pydict = "(string \<times> pyval) list"

text \<open>\<open>d.get(k, default)\<close>\<close>

definition dict_get :: "pydict \<Rightarrow> string \<Rightarrow> pyval \<Rightarrow> pyval" where
  "dict_get d k dflt = (case map_of d k of Some v \<Rightarrow> v | None \<Rightarrow> dflt)"

text \<open>Truth value of a Python object, as \<open>if x:\<close> and \<open>x or y\<close> test it.\<close>

fun truthy :: "pyval \<Rightarrow> bool" where
  "truthy PNone = False"
| "truthy (PBool b) = b"
| "truthy (PInt i) = (i \<noteq> 0)"
| "truthy (PStr s) = (s \<noteq> [])"
| "truthy (PList xs) = (xs \<noteq> [])"
| "truthy (PDict d) = (d \<noteq> [])"

subsection \<open>String operations\<close>

definition ascii_uppercase :: string where
  "ascii_uppercase = ''ABCDEFGHIJKLMNOPQRSTUVWXYZ''"

definition ascii_lowercase :: string where
  "ascii_lowercase = ''abcdefghijklmnopqrstuvwxyz''"

definition lower_char :: "char \<Rightarrow> char" where
  "lower_char c = (case map_of (zip ascii_uppercase ascii_lowercase) c of Some l \<Rightarrow> l | None \<Rightarrow> c)"

definition upper_char :: "char \<Rightarrow> char" where
  "upper_char c = (case map_of (zip ascii_lowercase ascii_uppercase) c of Some u \<Rightarrow> u | None \<Rightarrow> c)"

text \<open>\<open>s.lower()\<close> and \<open>s.upper()\<close>\<close>

definition lower :: "string \<Rightarrow> string" where
  "lower s = map lower_char s"

definition upper :: "string \<Rightarrow> string" where
  "upper s = map upper_char s"

text \<open>\<open>s.isascii()\<close>\<close>

definition is_ascii :: "string \<Rightarrow> bool" where
  "is_ascii s = list_all (\<lambda>c. (of_char c :: nat) < 128) s"

text \<open>\<open>s.startswith(p)\<close>\<close>

fun startswith :: "string \<Rightarrow> string \<Rightarrow> bool" where
  "startswith s [] = True"
| "startswith [] (p # ps) = False"
| "startswith (c # cs) (p # ps) = (c = p \<and> startswith cs ps)"

text \<open>\<open>sub in s\<close>: the substring test, trying every start position from the left.\<close>

fun str_in :: "string \<Rightarrow> string \<Rightarrow> bool" where
  "str_in sub [] = (sub = [])"
| "str_in sub (c # cs) = (startswith (c # cs) sub \<or> str_in sub cs)"

subsection \<open>Vendor classification\<close>

text \<open>\<open>self.canon_keywords\<close>, set in \<open>__init__\<close>.\<close>

definition canon_keywords :: "string list" where
  "canon_keywords =
     [''canon'', ''pixma'', ''imageclass'', ''maxify'', ''selphy'',
      ''imagerunner'', ''ij'', ''mb'', ''mx'', ''mp'', ''mg'', ''mf'']"

text \<open>\<open>any(keyword in text for keyword in self.canon_keywords)\<close>\<close>

definition any_keyword_in :: "string \<Rightarrow> bool" where
  "any_keyword_in text = list_ex (\<lambda>keyword. str_in keyword text) canon_keywords"

text \<open>\<open>_is_canon_printer\<close>\<close>

definition is_canon_printer :: "string \<Rightarrow> bool" where
  "is_canon_printer name = (let name_lower = lower name in any_keyword_in name_lower)"

subsection \<open>Regular expressions\<close>

text \<open>
  The patterns of this module are sequences of single-character items, each with a greedy
  quantifier. \<open>match_here\<close> is the backtracking matcher of Python's \<open>re\<close> on such a
  pattern, anchored at the start of the text: each item first takes the longest run it
  can and gives characters back one at a time while the rest of the pattern fails. It
  returns the text matched by each item. \<open>re_search\<close> tries the start positions from the
  left, as \<open>re.search\<close> does.
\<close>

definition is_space :: "char \<Rightarrow> bool" where
  "is_space c =
     (let n = (of_char c :: nat)
      in (9 \<le> n \<and> n \<le> 13) \<or> (28 \<le> n \<and> n \<le> 32) \<or> n = 133 \<or> n = 160)"

definition is_digit :: "char \<Rightarrow> bool" where
  "is_digit c = (c \<in> set ''0123456789'')"

definition is_upper_AZ :: "char \<Rightarrow> bool" where
  "is_upper_AZ c = (c \<in> set ascii_uppercase)"

datatype cclass =
    Lit char
  | LitIgnoreCase char
  | Space
  | Digit
  | UpperAZ
  | NotChar char

fun cmatch :: "cclass \<Rightarrow> char \<Rightarrow> bool" where
  "cmatch (Lit a) c = (c = a)"
| "cmatch (LitIgnoreCase a) c = (lower_char c = lower_char a)"
| "cmatch Space c = is_space c"
| "cmatch Digit c = is_digit c"
| "cmatch UpperAZ c = is_upper_AZ c"
| "cmatch (NotChar a) c = (c \<noteq> a)"

datatype quant = One | Plus | Star

type_synonym regex = "(cclass \<times> quant) list"

fun counts :: "quant \<Rightarrow> nat \<Rightarrow> nat list" where
  "counts One run = (if run = 0 then [] else [1])"
| "counts Plus run = rev [1 ..< Suc run]"
| "counts Star run = rev [0 ..< Suc run]"

text \<open>The first candidate, in order, for which \<open>f\<close> gives a result.\<close>

fun first_some :: "('a \<Rightarrow> 'b option) \<Rightarrow> 'a list \<Rightarrow> 'b option" where
  "first_some f [] = None"
| "first_some f (k # ks) = (case f k of Some r \<Rightarrow> Some r | None \<Rightarrow> first_some f ks)"

primrec match_here :: "regex \<Rightarrow> string \<Rightarrow> string list option" where
  "match_here [] s = Some []"
| "match_here (item # items) s =
     (let run = length (takeWhile (cmatch (fst item)) s) in
      first_some (\<lambda>k. map_option (Cons (take k s)) (match_here items (drop k s)))
        (counts (snd item) run))"

fun re_search :: "regex \<Rightarrow> string \<Rightarrow> string list option" where
  "re_search r [] = match_here r []"
| "re_search r (c # cs) =
     (case match_here r (c # cs) of Some segs \<Rightarrow> Some segs | None \<Rightarrow> re_search r cs)"

text \<open>\<open>match.group(0)\<close>: the whole match.\<close>

definition group0 :: "string list \<Rightarrow> string" where
  "group0 segs = concat segs"

text \<open>The text matched by the \<open>n\<close> items from item \<open>i\<close> on: a parenthesised group.\<close>

definition group_at :: "nat \<Rightarrow> nat \<Rightarrow> string list \<Rightarrow> string" where
  "group_at i n segs = concat (take n (drop i segs))"

definition lit :: "string \<Rightarrow> regex" where
  "lit s = map (\<lambda>c. (Lit c, One)) s"

definition lit_ignorecase :: "string \<Rightarrow> regex" where
  "lit_ignorecase s = map (\<lambda>c. (LitIgnoreCase c, One)) s"

subsection \<open>Model extraction\<close>

text \<open>The \<open>patterns\<close> list of \<open>_extract_model\<close>, in its order.\<close>

definition model_patterns :: "regex list" where
  "model_patterns =
     [lit ''PIXMA'' @ [(Space, Plus), (UpperAZ, Plus), (Digit, Plus)],
      lit ''MX'' @ [(Digit, Plus), (UpperAZ, Star)],
      lit ''MP'' @ [(Digit, Plus), (UpperAZ, Star)],
      lit ''MG'' @ [(Digit, Plus), (UpperAZ, Star)],
      lit ''MF'' @ [(Digit, Plus), (UpperAZ, Star)],
      lit ''MB'' @ [(Digit, Plus), (UpperAZ, Star)],
      lit ''IMAGECLASS'' @ [(Space, Plus), (UpperAZ, Plus), (Digit, Plus)],
      lit ''IMAGERUNNER'' @ [(Space, Plus), (UpperAZ, Plus), (Digit, Plus)]]"

text \<open>The \<open>for pattern in patterns\<close> loop: the first pattern that matches returns.\<close>

fun first_model_match :: "regex list \<Rightarrow> string \<Rightarrow> string" where
  "first_model_match [] name_upper = ''Canon Printer''"
| "first_model_match (pattern # patterns) name_upper =
     (case re_search pattern name_upper of
        Some m \<Rightarrow> ''Canon '' @ group0 m
      | None \<Rightarrow> first_model_match patterns name_upper)"

text \<open>\<open>_extract_model\<close>\<close>

definition extract_model :: "string \<Rightarrow> string" where
  "extract_model name = (let name_upper = upper name in first_model_match model_patterns name_upper)"

subsection \<open>Numbers and addresses as text\<close>

definition digit_char :: "nat \<Rightarrow> char" where
  "digit_char d = ''0123456789'' ! d"

text \<open>\<open>str(n)\<close> for a natural number and for an integer.\<close>

fun str_nat :: "nat \<Rightarrow> string" where
  "str_nat n = (if n < 10 then [digit_char n] else str_nat (n div 10) @ [digit_char (n mod 10)])"

declare str_nat.simps [simp del]

definition str_int :: "int \<Rightarrow> string" where
  "str_int i = (if i < 0 then CHR ''-'' # str_nat (nat (- i)) else str_nat (nat i))"

text \<open>
  An \<open>ipaddress.IPv4Network\<close>: its network address as a number below \<open>2 ^ 32\<close> and its
  prefix length. Iterating over it yields every address of the block, the network and
  the broadcast address included. \<open>str_ip\<close> is \<open>str\<close> of an \<open>IPv4Address\<close>.
\<close>

record ipv4_network =
  network_address :: nat
  prefixlen :: nat

definition addresses :: "ipv4_network \<Rightarrow> nat list" where
  "addresses net = map (\<lambda>i. network_address net + i) [0 ..< 2 ^ (32 - prefixlen net)]"

definition str_ip :: "nat \<Rightarrow> string" where
  "str_ip a =
     str_nat (a div 16777216 mod 256) @ ''.'' @ str_nat (a div 65536 mod 256) @ ''.'' @
     str_nat (a div 256 mod 256) @ ''.'' @ str_nat (a mod 256)"

definition ip4 :: "nat \<Rightarrow> nat \<Rightarrow> nat \<Rightarrow> nat \<Rightarrow> nat" where
  "ip4 a b c d = ((a * 256 + b) * 256 + c) * 256 + d"

subsection \<open>The environment\<close>

text \<open>
  What the module reads from outside itself. A subprocess either completes with a return
  code and its standard output, or \<open>subprocess.run\<close> raises. \<open>connect_ex\<close> is the socket
  call of \<open>_is_port_open\<close> with its timeout in seconds (\<open>None\<close>: the socket code raised);
  \<open>http_get\<close> is \<open>requests.get\<close> on a URL, giving the status code and the body text
  (\<open>None\<close>: it raised, or \<open>requests\<close> could not be imported); \<open>ipv4_network_of\<close> is
  \<open>ipaddress.IPv4Network(s, strict=False)\<close> (\<open>None\<close>: it raised); \<open>urlparse\<close> gives
  \<open>hostname\<close> and \<open>port\<close> of a parsed URI (\<open>None\<close>: reading them raised);
  \<open>as_completed\<close> is the order in which the futures of a sweep complete.
\<close>

datatype exn = TimeoutExpired | SubprocessError | FileNotFoundError | OtherException

datatype proc_result = Completed int string | Raised exn

record env =
  ipp_ports :: "int list"
  config_manager :: "(string \<times> pydict) list option"
  system_printers :: "pydict list"
  route_get_default :: proc_result
  dns_sd_browse :: proc_result
  ipv4_network_of :: "string \<Rightarrow> ipv4_network option"
  connect_ex :: "string \<Rightarrow> int \<Rightarrow> nat \<Rightarrow> int option"
  http_get :: "string \<Rightarrow> (int \<times> string) option"
  urlparse :: "string \<Rightarrow> (string option \<times> int option) option"
  as_completed :: "pydict option list \<Rightarrow> pydict option list"

subsection \<open>Probing one endpoint\<close>

text \<open>\<open>_is_port_open\<close>\<close>

definition is_port_open :: "env \<Rightarrow> string \<Rightarrow> int \<Rightarrow> nat \<Rightarrow> bool" where
  "is_port_open e ip port timeout =
     (case connect_ex e ip port timeout of None \<Rightarrow> False | Some result \<Rightarrow> result = 0)"

text \<open>The pattern \<open><title>([^<]+)</title>\<close> with \<open>re.IGNORECASE\<close>; its group 1 is item 7.\<close>

definition title_pattern :: regex where
  "title_pattern =
     lit_ignorecase ''<title>'' @ [(NotChar CHR ''<'', Plus)] @ lit_ignorecase ''</title>''"

text \<open>
  \<open>_get_ipp_printer_info\<close>: the dictionary it returns has string values only. Every
  exception is caught and gives \<open>None\<close>.
\<close>

definition get_ipp_printer_info :: "env \<Rightarrow> string \<Rightarrow> int \<Rightarrow> (string \<times> string) list option" where
  "get_ipp_printer_info e ip port =
     (case http_get e (''http://'' @ ip @ '':'' @ str_int port) of
        None \<Rightarrow> None
      | Some (status_code, text) \<Rightarrow>
          if status_code = 200 then
            (let content = lower text in
             if any_keyword_in content then
               (let name = (case re_search title_pattern text of
                              Some name_match \<Rightarrow> group_at 7 1 name_match
                            | None \<Rightarrow> ''Canon Printer at '' @ ip)
                in Some [(''name'', name), (''model'', extract_model name),
                         (''status'', ''Available'')])
             else None)
          else None)"

text \<open>\<open>d.get(k, default)\<close> on a dictionary of strings.\<close>

definition sget :: "(string \<times> string) list \<Rightarrow> string \<Rightarrow> string \<Rightarrow> string" where
  "sget d k dflt = (case map_of d k of Some v \<Rightarrow> v | None \<Rightarrow> dflt)"

text \<open>
  \<open>_scan_host_for_ipp\<close>, with the list of ports it has probed by \<open>_is_port_open\<close>.
  The loop returns at the first port that is open and whose banner and name both pass the
  vendor test. \<open>printer_info['name']\<close> is read only after \<open>printer_info.get('name', '')\<close>
  passed the vendor test, which the empty default fails, so the key is there.
\<close>

fun scan_ports :: "env \<Rightarrow> string \<Rightarrow> int list \<Rightarrow> int list \<times> pydict option" where
  "scan_ports e ip [] = ([], None)"
| "scan_ports e ip (port # ports) =
     (if is_port_open e ip port 1 then
        (case get_ipp_printer_info e ip port of
           None \<Rightarrow> (port # fst (scan_ports e ip ports), snd (scan_ports e ip ports))
         | Some printer_info \<Rightarrow>
             if is_canon_printer (sget printer_info ''name'' '''') then
               ([port],
                Some [(''name'', PStr (sget printer_info ''name'' '''')),
                      (''uri'', PStr (''ipp://'' @ ip @ '':'' @ str_int port @ ''/ipp/print'')),
                      (''status'', PStr (sget printer_info ''status'' ''Unknown'')),
                      (''model'', PStr (sget printer_info ''model'' ''Unknown'')),
                      (''source'', PStr ''network_scan'')])
             else (port # fst (scan_ports e ip ports), snd (scan_ports e ip ports)))
      else (port # fst (scan_ports e ip ports), snd (scan_ports e ip ports)))"

definition scan_host_for_ipp :: "env \<Rightarrow> string \<Rightarrow> pydict option" where
  "scan_host_for_ipp e ip = snd (scan_ports e ip (ipp_ports e))"

definition probed_ports :: "env \<Rightarrow> string \<Rightarrow> int list" where
  "probed_ports e ip = fst (scan_ports e ip (ipp_ports e))"

subsection \<open>More string operations\<close>

text \<open>\<open>s.split(sep)\<close> for a one-character separator.\<close>

fun split_char :: "char \<Rightarrow> string \<Rightarrow> string list" where
  "split_char sep [] = [[]]"
| "split_char sep (c # cs) =
     (if c = sep then [] # split_char sep cs
      else (case split_char sep cs of
              [] \<Rightarrow> [[c]]
            | w # ws \<Rightarrow> (c # w) # ws))"

text \<open>\<open>s.split()\<close>: the maximal runs of characters that are not white space.\<close>

fun split_ws_from :: "string \<Rightarrow> string \<Rightarrow> string list" where
  "split_ws_from cur [] = (if cur = [] then [] else [cur])"
| "split_ws_from cur (c # cs) =
     (if is_space c then (if cur = [] then split_ws_from [] cs else cur # split_ws_from [] cs)
      else split_ws_from (cur @ [c]) cs)"

definition split_ws :: "string \<Rightarrow> string list" where
  "split_ws s = split_ws_from [] s"

text \<open>\<open>sep.join(parts)\<close>\<close>

fun join :: "string \<Rightarrow> string list \<Rightarrow> string" where
  "join sep [] = []"
| "join sep [x] = x"
| "join sep (x # y # ys) = x @ sep @ join sep (y # ys)"

text \<open>\<open>s.strip()\<close>\<close>

definition strip :: "string \<Rightarrow> string" where
  "strip s = rev (dropWhile is_space (rev (dropWhile is_space s)))"

text \<open>\<open>xs[i]\<close>, with \<open>None\<close> for the \<open>IndexError\<close>.\<close>

fun nth_opt :: "'a list \<Rightarrow> nat \<Rightarrow> 'a option" where
  "nth_opt [] i = None"
| "nth_opt (x # xs) 0 = Some x"
| "nth_opt (x # xs) (Suc i) = nth_opt xs i"

definition newline :: char where
  "newline = CHR 0x0A"

subsection \<open>Network ranges\<close>

text \<open>The fallback list of \<open>_get_network_ranges\<close>, as the networks its four literals denote.\<close>

definition common_networks :: "ipv4_network list" where
  "common_networks =
     [\<lparr>network_address = ip4 192 168 1 0, prefixlen = 24\<rparr>,
      \<lparr>network_address = ip4 192 168 0 0, prefixlen = 24\<rparr>,
      \<lparr>network_address = ip4 10 0 0 0, prefixlen = 24\<rparr>,
      \<lparr>network_address = ip4 172 16 0 0, prefixlen = 24\<rparr>]"

text \<open>
  \<open>_get_network_ranges\<close>. The fallback is the body of \<open>except Exception\<close>: it is taken
  when \<open>subprocess.run\<close> raises and when building the network from the gateway line raises.
  Only the first line that contains \<open>gateway:\<close> is read (\<open>break\<close>).
\<close>

definition get_network_ranges :: "env \<Rightarrow> ipv4_network list" where
  "get_network_ranges e =
     (case route_get_default e of
        Raised x \<Rightarrow> common_networks
      | Completed returncode stdout \<Rightarrow>
          if returncode = 0 then
            (case find (\<lambda>line. str_in ''gateway:'' line) (split_char newline stdout) of
               None \<Rightarrow> []
             | Some line \<Rightarrow>
                 (case nth_opt (split_char CHR '':'' line) 1 of
                    None \<Rightarrow> common_networks
                  | Some field \<Rightarrow>
                      (let gateway = strip field;
                           network_base = join ''.'' (butlast (split_char CHR ''.'' gateway)) @ ''.0/24''
                       in case ipv4_network_of e network_base of
                            None \<Rightarrow> common_networks
                          | Some network \<Rightarrow> [network])))
          else [])"

subsection \<open>The network sweep\<close>

text \<open>
  \<open>_discover_network_printers\<close>: one task per address of every range is submitted, in
  order; the results are read in the order of completion and the hosts that gave a
  record are kept. \<open>sweep\<close> is the body after the ranges are resolved.
\<close>

definition submitted_hosts :: "ipv4_network list \<Rightarrow> string list" where
  "submitted_hosts network_ranges = map str_ip (concat (map addresses network_ranges))"

fun collect :: "pydict option list \<Rightarrow> pydict list" where
  "collect [] = []"
| "collect (None # results) = collect results"
| "collect (Some printer # results) = printer # collect results"

definition sweep :: "env \<Rightarrow> ipv4_network list \<Rightarrow> pydict list" where
  "sweep e network_ranges =
     (let futures = map (scan_host_for_ipp e) (submitted_hosts network_ranges)
      in collect (as_completed e futures))"

definition discover_network_printers :: "env \<Rightarrow> pydict list" where
  "discover_network_printers e = sweep e (get_network_ranges e)"

text \<open>The endpoints on which a sweep calls \<open>_is_port_open\<close>, host by host.\<close>

definition sweep_probes :: "env \<Rightarrow> ipv4_network list \<Rightarrow> (string \<times> int) list" where
  "sweep_probes e network_ranges =
     concat (map (\<lambda>ip. map (\<lambda>port. (ip, port)) (probed_ports e ip)) (submitted_hosts network_ranges))"

subsection \<open>Manually configured printers\<close>

text \<open>
  \<open>test_printer_connection\<close>: \<open>parsed.port or 631\<close>, then \<open>_is_port_open\<close> with a timeout
  of five seconds. A host of \<open>None\<close> makes the socket call raise, which
  \<open>_is_port_open\<close> turns into \<open>False\<close>.
\<close>

definition test_printer_connection :: "env \<Rightarrow> string \<Rightarrow> bool" where
  "test_printer_connection e printer_uri =
     (case urlparse e printer_uri of
        None \<Rightarrow> False
      | Some (host, parsed_port) \<Rightarrow>
          (let port = (case parsed_port of None \<Rightarrow> 631 | Some p \<Rightarrow> if p = 0 then 631 else p)
           in case host of None \<Rightarrow> False | Some h \<Rightarrow> is_port_open e h port 5))"

text \<open>The loop of \<open>_get_manual_printers\<close> over \<open>printers_cache.items()\<close>.\<close>

fun manual_loop :: "env \<Rightarrow> (string \<times> pydict) list \<Rightarrow> pydict list" where
  "manual_loop e [] = []"
| "manual_loop e ((uri, printer_info) # items) =
     (if truthy (dict_get printer_info ''manually_added'' (PBool False)) then
        (let is_online = test_printer_connection e uri in
           [(''name'', dict_get printer_info ''name'' (PStr ''Unknown Printer'')),
            (''uri'', PStr uri),
            (''status'', PStr (if is_online then ''Available'' else ''Offline'')),
            (''model'', dict_get printer_info ''model'' (PStr ''Unknown'')),
            (''source'', PStr ''manual_config''),
            (''ip'', dict_get printer_info ''ip'' (PStr [])),
            (''port'', dict_get printer_info ''port'' (PInt 631))]
           # manual_loop e items)
      else manual_loop e items)"

definition get_manual_printers :: "env \<Rightarrow> pydict list" where
  "get_manual_printers e =
     (case config_manager e of None \<Rightarrow> [] | Some printers_cache \<Rightarrow> manual_loop e printers_cache)"

subsection \<open>mDNS discovery\<close>

datatype error = KeyError | TypeError | Uncaught exn

definition mdns_line :: "string \<Rightarrow> pydict list" where
  "mdns_line line =
     (if any_keyword_in (lower line) then
        (let parts = split_ws line in
         if length parts \<ge> 7 then
           (let service_name = parts ! 6 in
            if is_canon_printer service_name then
              [[(''name'', PStr service_name),
                (''uri'', PStr (''ipp://'' @ service_name @ ''.local:631/ipp/print'')),
                (''status'', PStr ''Available''),
                (''model'', PStr (extract_model service_name)),
                (''source'', PStr ''mdns'')]]
            else [])
         else [])
      else [])"

text \<open>
  \<open>_discover_mdns_printers\<close>: its \<open>except\<close> clause names three exception classes; any
  other exception of \<open>subprocess.run\<close> leaves the method.
\<close>

definition discover_mdns_printers :: "env \<Rightarrow> error + pydict list" where
  "discover_mdns_printers e =
     (case dns_sd_browse e of
        Raised x \<Rightarrow> (if x = OtherException then Inl (Uncaught x) else Inr [])
      | Completed returncode stdout \<Rightarrow>
          if returncode = 0 then Inr (concat (map mdns_line (split_char newline stdout)))
          else Inr [])"

subsection \<open>Aggregation and removal of duplicates\<close>

text \<open>
  The loop over \<open>printers\<close> that fills the dictionary \<open>unique_printers\<close>, kept in insertion
  order. \<open>printer['uri']\<close> raises \<open>KeyError\<close> when the key is missing, and a list or a
  dictionary cannot be a dictionary key (\<open>TypeError\<close>). Keys are compared as values of
  \<open>pyval\<close>; Python's \<open>==\<close> also identifies \<open>1\<close> with \<open>True\<close> and \<open>0\<close> with \<open>False\<close>, so
  what is stated about this loop is stated for records whose \<open>uri\<close> is a string
  (\<open>has_str_uri\<close>), as every producer builds them.
\<close>

fun hashable :: "pyval \<Rightarrow> bool" where
  "hashable (PList xs) = False"
| "hashable (PDict d) = False"
| "hashable v = True"

fun unique_loop :: "(pyval \<times> pydict) list \<Rightarrow> pydict list \<Rightarrow> error + (pyval \<times> pydict) list" where
  "unique_loop unique_printers [] = Inr unique_printers"
| "unique_loop unique_printers (printer # printers) =
     (case map_of printer ''uri'' of
        None \<Rightarrow> Inl KeyError
      | Some uri \<Rightarrow>
          if \<not> hashable uri then Inl TypeError
          else if map_of unique_printers uri = None
          then unique_loop (unique_printers @ [(uri, printer)]) printers
          else unique_loop unique_printers printers)"

text \<open>\<open>list(unique_printers.values())\<close> after the loop.\<close>

definition remove_duplicates :: "pydict list \<Rightarrow> error + pydict list" where
  "remove_duplicates printers =
     (case unique_loop [] printers of
        Inl err \<Rightarrow> Inl err
      | Inr unique_printers \<Rightarrow> Inr (map snd unique_printers))"

text \<open>The list \<open>printers\<close> of \<open>find_canon_printers\<close> before duplicates are removed.\<close>

definition gathered :: "env \<Rightarrow> pydict list \<Rightarrow> pydict list" where
  "gathered e mdns_printers =
     (case config_manager e of None \<Rightarrow> [] | Some c \<Rightarrow> get_manual_printers e)
     @ system_printers e @ discover_network_printers e @ mdns_printers"

text \<open>\<open>find_canon_printers\<close>\<close>

definition find_canon_printers :: "env \<Rightarrow> error + pydict list" where
  "find_canon_printers e =
     (case discover_mdns_printers e of
        Inl err \<Rightarrow> Inl err
      | Inr mdns_printers \<Rightarrow> remove_duplicates (gathered e mdns_printers))"

subsection \<open>Capabilities\<close>

text \<open>\<open>d.update(...)\<close>: an existing key keeps its place, a new key goes to the end.\<close>

fun dict_set :: "pydict \<Rightarrow> string \<Rightarrow> pyval \<Rightarrow> pydict" where
  "dict_set [] k v = [(k, v)]"
| "dict_set ((k', v') # d) k v = (if k' = k then (k, v) # d else (k', v') # dict_set d k v)"

fun dict_update :: "pydict \<Rightarrow> pydict \<Rightarrow> pydict" where
  "dict_update d [] = d"
| "dict_update d ((k, v) # kvs) = dict_update (dict_set d k v) kvs"

text \<open>\<open>get_printer_capabilities\<close>\<close>

definition get_printer_capabilities :: "string \<Rightarrow> pydict" where
  "get_printer_capabilities printer_uri =
     (let capabilities =
        [(''duplex'', PBool False),
         (''color'', PBool False),
         (''max_copies'', PInt 99),
         (''supported_media'', PList []),
         (''supported_quality'', PList [PStr ''draft'', PStr ''normal'', PStr ''high''])]
      in dict_update capabilities
           [(''duplex'', PBool True),
            (''color'', PBool True),
            (''supported_media'',
               PList [PStr ''A4'', PStr ''Letter'', PStr ''Legal'', PStr ''4x6'', PStr ''5x7''])])"


subsection \<open>Notions used to state the properties\<close>

text \<open>The identity key of a record: \<open>printer['uri']\<close>, \<open>None\<close> when the key is missing.\<close>

definition uri_of :: "pydict \<Rightarrow> pyval option" where
  "uri_of printer = map_of printer ''uri''"

text \<open>
  A record whose \<open>uri\<close> is a string, as every producer of this program builds it. On
  such records the keys of \<open>unique_printers\<close> are compared as strings.
\<close>

definition has_str_uri :: "pydict \<Rightarrow> bool" where
  "has_str_uri printer = (case uri_of printer of Some (PStr u) \<Rightarrow> True | _ \<Rightarrow> False)"

text \<open>
  Keeping the first record seen for each \<open>uri\<close>, walking the list in order: \<open>seen\<close> are
  the keys met so far.
\<close>

fun keep_first :: "pyval set \<Rightarrow> pydict list \<Rightarrow> pydict list" where
  "keep_first seen [] = []"
| "keep_first seen (p # ps) =
     (case uri_of p of
        None \<Rightarrow> keep_first seen ps
      | Some u \<Rightarrow> if u \<in> seen then keep_first seen ps else p # keep_first (insert u seen) ps)"

text \<open>The first record of a list that has a given \<open>uri\<close>.\<close>

definition first_with_uri :: "pyval \<Rightarrow> pydict list \<Rightarrow> pydict option" where
  "first_with_uri u printers = find (\<lambda>p. uri_of p = Some u) printers"

text \<open>Every future of a sweep completes once: \<open>as_completed\<close> only reorders them.\<close>

definition completes_each_once :: "env \<Rightarrow> bool" where
  "completes_each_once e = (\<forall>futures. mset (as_completed e futures) = mset futures)"

text \<open>
  The four producers of \<open>find_canon_printers\<close>, in the order in which their
  contributions are appended.
\<close>

datatype source = Manual | System | NetworkScan | Mdns

text \<open>The earliest producer, in that order, whose contribution has a record with the \<open>uri\<close>.\<close>

definition earliest_source ::
  "pyval \<Rightarrow> pydict list \<Rightarrow> pydict list \<Rightarrow> pydict list \<Rightarrow> pydict list \<Rightarrow> source option" where
  "earliest_source u manual system network mdns =
     (if first_with_uri u manual \<noteq> None then Some Manual
      else if first_with_uri u system \<noteq> None then Some System
      else if first_with_uri u network \<noteq> None then Some NetworkScan
      else if first_with_uri u mdns \<noteq> None then Some Mdns
      else None)"

text \<open>The record that this producer contributed for the \<open>uri\<close>.\<close>

fun contributed ::
  "source option \<Rightarrow> pyval \<Rightarrow> pydict list \<Rightarrow> pydict list \<Rightarrow> pydict list \<Rightarrow> pydict list \<Rightarrow> pydict option" where
  "contributed None u manual system network mdns = None"
| "contributed (Some Manual) u manual system network mdns = first_with_uri u manual"
| "contributed (Some System) u manual system network mdns = first_with_uri u system"
| "contributed (Some NetworkScan) u manual system network mdns = first_with_uri u network"
| "contributed (Some Mdns) u manual system network mdns = first_with_uri u mdns"

text \<open>
  Whether a port of a host ends the loop of \<open>_scan_host_for_ipp\<close>: it is open, the banner
  gives printer information, and the name in it passes the vendor test.
\<close>

definition port_matches :: "env \<Rightarrow> string \<Rightarrow> int \<Rightarrow> bool" where
  "port_matches e ip port =
     (is_port_open e ip port 1 \<and>
      (case get_ipp_printer_info e ip port of
         None \<Rightarrow> False
       | Some printer_info \<Rightarrow> is_canon_printer (sget printer_info ''name'' '''')))"

text \<open>The display name that \<open>_get_ipp_printer_info\<close> gives a banner.\<close>

definition display_name :: "string \<Rightarrow> string \<Rightarrow> string" where
  "display_name ip body =
     (case re_search title_pattern body of
        Some name_match \<Rightarrow> group_at 7 1 name_match
      | None \<Rightarrow> ''Canon Printer at '' @ ip)"

text \<open>The record that \<open>_scan_host_for_ipp\<close> returns for an endpoint with a given banner.\<close>

definition network_record :: "string \<Rightarrow> int \<Rightarrow> string \<Rightarrow> pydict" where
  "network_record ip port body =
     [(''name'', PStr (display_name ip body)),
      (''uri'', PStr (''ipp://'' @ ip @ '':'' @ str_int port @ ''/ipp/print'')),
      (''status'', PStr ''Available''),
      (''model'', PStr (extract_model (display_name ip body))),
      (''source'', PStr ''network_scan'')]"

text \<open>The record that \<open>_get_manual_printers\<close> builds for a cache entry.\<close>

definition manual_record :: "env \<Rightarrow> string \<Rightarrow> pydict \<Rightarrow> pydict" where
  "manual_record e uri printer_info =
     [(''name'', dict_get printer_info ''name'' (PStr ''Unknown Printer'')),
      (''uri'', PStr uri),
      (''status'', PStr (if test_printer_connection e uri then ''Available'' else ''Offline'')),
      (''model'', dict_get printer_info ''model'' (PStr ''Unknown'')),
      (''source'', PStr ''manual_config''),
      (''ip'', dict_get printer_info ''ip'' (PStr [])),
      (''port'', dict_get printer_info ''port'' (PInt 631))]"

definition manually_added :: "string \<times> pydict \<Rightarrow> bool" where
  "manually_added entry = truthy (dict_get (snd entry) ''manually_added'' (PBool False))"

text \<open>The descriptor that \<open>get_printer_capabilities\<close> returns.\<close>

definition default_capabilities :: pydict where
  "default_capabilities =
     [(''duplex'', PBool True),
      (''color'', PBool True),
      (''max_copies'', PInt 99),
      (''supported_media'',
         PList [PStr ''A4'', PStr ''Letter'', PStr ''Legal'', PStr ''4x6'', PStr ''5x7'']),
      (''supported_quality'', PList [PStr ''draft'', PStr ''normal'', PStr ''high''])]"

text \<open>Reading a decimal numeral back, to tell rendered addresses apart.\<close>

definition digit_val :: "char \<Rightarrow> nat" where
  "digit_val c = length (takeWhile (\<lambda>d. d \<noteq> c) ''0123456789'')"

definition nat_of_digits :: "string \<Rightarrow> nat" where
  "nat_of_digits s = foldl (\<lambda>acc c. 10 * acc + digit_val c) 0 s"

subsection \<open>Scenarios\<close>

text \<open>
  An environment in which nothing answers: \<open>route\<close> exits with code 1 and prints
  nothing, \<open>dns-sd\<close> runs into its timeout, every connection is refused (errno 111),
  every HTTP request raises, and no configuration manager is given.
\<close>

definition quiet_env :: env where
  "quiet_env =
     \<lparr>ipp_ports = [631, 9100, 8080, 80],
      config_manager = None,
      system_printers = [],
      route_get_default = Completed 1 [],
      dns_sd_browse = Raised TimeoutExpired,
      ipv4_network_of = (\<lambda>s. None),
      connect_ex = (\<lambda>ip port timeout. Some 111),
      http_get = (\<lambda>url. None),
      urlparse = (\<lambda>uri. None),
      as_completed = (\<lambda>futures. futures)\<rparr>"

definition net_192_168_1 :: ipv4_network where
  "net_192_168_1 = \<lparr>network_address = ip4 192 168 1 0, prefixlen = 24\<rparr>"

text \<open>
  The gateway is 192.168.1.1; the only listener of the network is 192.168.1.5 on port 631,
  whose page has the title \<open>Canon PIXMA TS3400\<close>; the futures complete in reverse order.
\<close>

definition pixma_banner :: string where
  "pixma_banner =
     ''<html><head><title>Canon PIXMA TS3400</title></head><body>Status</body></html>''"

definition pixma_env :: env where
  "pixma_env =
     quiet_env
       \<lparr>route_get_default := Completed 0 (''   route to: default'' @ [newline] @ ''    gateway: 192.168.1.1''),
        ipv4_network_of := (\<lambda>s. if s = ''192.168.1.0/24'' then Some net_192_168_1 else None),
        connect_ex := (\<lambda>ip port timeout. if ip = ''192.168.1.5'' \<and> port = 631 then Some 0 else Some 111),
        http_get := (\<lambda>url. if url = ''http://192.168.1.5:631'' then Some (200, pixma_banner) else None),
        urlparse := (\<lambda>uri. if uri = ''ipp://192.168.1.5:631/ipp/print''
                           then Some (Some ''192.168.1.5'', Some 631) else None),
        as_completed := rev\<rparr>"

definition pixma_record :: pydict where
  "pixma_record =
     [(''name'', PStr ''Canon PIXMA TS3400''),
      (''uri'', PStr ''ipp://192.168.1.5:631/ipp/print''),
      (''status'', PStr ''Available''),
      (''model'', PStr ''Canon PIXMA TS3400''),
      (''source'', PStr ''network_scan'')]"

text \<open>The same network with the single configured port 631.\<close>

definition pixma_env_631 :: env where
  "pixma_env_631 = pixma_env\<lparr>ipp_ports := [631]\<rparr>"

text \<open>
  The same network with a printers cache: the printer at 192.168.1.5 was added by hand
  under another name, a second printer added by hand does not answer, and a third entry
  was not added by hand.
\<close>

definition office_cache :: "(string \<times> pydict) list" where
  "office_cache =
     [(''ipp://192.168.1.5:631/ipp/print'',
         [(''name'', PStr ''Office printer''), (''model'', PStr ''Canon TS3400 series''),
          (''ip'', PStr ''192.168.1.5''), (''port'', PInt 631), (''manually_added'', PBool True)]),
      (''ipp://192.168.1.77:631/ipp/print'',
         [(''name'', PStr ''Attic printer''), (''manually_added'', PBool True)]),
      (''ipp://192.168.1.80:631/ipp/print'',
         [(''name'', PStr ''Canon MX922''), (''model'', PStr ''Canon MX922'')])]"

text \<open>A printer that the operating system lists, as \<open>_get_unix_printers\<close> builds it.\<close>

definition usb_record :: pydict where
  "usb_record =
     [(''name'', PStr ''Canon_MX920_series''),
      (''uri'', PStr ''usb://Canon/MX920%20series''),
      (''status'', PStr ''Available''),
      (''model'', PStr ''Canon MX920 series''),
      (''source'', PStr ''cups_python''),
      (''location'', PStr []),
      (''description'', PStr ''Canon MX920 series'')]"

definition office_env :: env where
  "office_env = pixma_env\<lparr>config_manager := Some office_cache, system_printers := [usb_record]\<rparr>"

definition office_record :: pydict where
  "office_record =
     [(''name'', PStr ''Office printer''),
      (''uri'', PStr ''ipp://192.168.1.5:631/ipp/print''),
      (''status'', PStr ''Available''),
      (''model'', PStr ''Canon TS3400 series''),
      (''source'', PStr ''manual_config''),
      (''ip'', PStr ''192.168.1.5''),
      (''port'', PInt 631)]"

definition attic_record :: pydict where
  "attic_record =
     [(''name'', PStr ''Attic printer''),
      (''uri'', PStr ''ipp://192.168.1.77:631/ipp/print''),
      (''status'', PStr ''Offline''),
      (''model'', PStr ''Unknown''),
      (''source'', PStr ''manual_config''),
      (''ip'', PStr []),
      (''port'', PInt 631)]"

text \<open>
  The cache alone, with no network to sweep: \<open>route\<close> exits with code 1.
\<close>

definition cache_only_env :: env where
  "cache_only_env = quiet_env\<lparr>config_manager := Some office_cache\<rparr>"

definition office_record_offline :: pydict where
  "office_record_offline =
     [(''name'', PStr ''Office printer''),
      (''uri'', PStr ''ipp://192.168.1.5:631/ipp/print''),
      (''status'', PStr ''Offline''),
      (''model'', PStr ''Canon TS3400 series''),
      (''source'', PStr ''manual_config''),
      (''ip'', PStr ''192.168.1.5''),
      (''port'', PInt 631)]"

text \<open>
  A device whose page mentions the vendor in its body and not in its title.
\<close>

definition home_banner :: string where
  "home_banner =
     ''<html><head><title>Home</title></head><body>Canon PIXMA TS3400</body></html>''"

definition home_env :: env where
  "home_env =
     pixma_env\<lparr>http_get := (\<lambda>url. if url = ''http://192.168.1.5:631'' then Some (200, home_banner) else None)\<rparr>"

text \<open>A device whose page names the vendor and has no title.\<close>

definition plain_banner :: string where
  "plain_banner = ''<html><body><h1>Canon network printer</h1></body></html>''"

definition plain_env :: env where
  "plain_env =
     pixma_env\<lparr>http_get := (\<lambda>url. if url = ''http://192.168.1.5:631'' then Some (200, plain_banner) else None)\<rparr>"

definition plain_record :: pydict where
  "plain_record =
     [(''name'', PStr ''Canon Printer at 192.168.1.5''),
      (''uri'', PStr ''ipp://192.168.1.5:631/ipp/print''),
      (''status'', PStr ''Available''),
      (''model'', PStr ''Canon Printer''),
      (''source'', PStr ''network_scan'')]"

text \<open>A record has no capability descriptor.\<close>

definition no_capabilities :: "pydict \<Rightarrow> bool" where
  "no_capabilities printer = (map_of printer ''capabilities'' = None)"

text \<open>The records of a list that have a given \<open>uri\<close>.\<close>

definition records_with_uri :: "pyval \<Rightarrow> pydict list \<Rightarrow> pydict list" where
  "records_with_uri u printers = filter (\<lambda>p. uri_of p = Some u) printers"

section \<open>Properties\<close>

subsection \<open>Substring containment\<close>

lemma startswith_iff_prefix: "startswith s p \<longleftrightarrow> prefix p s"
  by (induction s p rule: startswith.induct) auto

lemma str_in_iff_sublist: "str_in sub s \<longleftrightarrow> sublist sub s"
  by (induction s) (simp_all add: startswith_iff_prefix sublist_Cons_right)

lemma lower_append: "lower (xs @ ys) = lower xs @ lower ys"
  by (simp add: lower_def)

lemma any_keyword_in_iff:
  "any_keyword_in text \<longleftrightarrow> (\<exists>keyword\<in>set canon_keywords. \<exists>pre post. text = pre @ keyword @ post)"
  by (simp add: any_keyword_in_def list_ex_iff str_in_iff_sublist sublist_def)

lemma lower_fragment:
  "lower ''ij'' = ''ij''" "lower ''mb'' = ''mb''" "lower ''mx'' = ''mx''"
  "lower ''mp'' = ''mp''" "lower ''mg'' = ''mg''" "lower ''mf'' = ''mf''"
  by (simp_all add: lower_def lower_char_def ascii_uppercase_def ascii_lowercase_def)

lemma keyword_embedded:
  "keyword \<in> set canon_keywords \<Longrightarrow> lower keyword = keyword \<Longrightarrow> is_canon_printer (pre @ keyword @ post)"
  unfolding is_canon_printer_def Let_def any_keyword_in_iff lower_append
  by blast

text \<open>
  C10: vendor classification is substring containment. \<open>_is_canon_printer\<close> returns true
  exactly when the lower-cased name contains one of the keywords at some position, so a
  name that embeds one of the two-letter fragments \<open>ij\<close>, \<open>mb\<close>, \<open>mx\<close>, \<open>mp\<close>, \<open>mg\<close>,
  \<open>mf\<close> inside a longer word is classified as a vendor match; \<open>Jumbo\<close> is one.
\<close>

theorem classification_is_substring_containment:
  "(is_canon_printer name \<longleftrightarrow>
      (\<exists>keyword\<in>set canon_keywords. \<exists>pre post. lower name = pre @ keyword @ post))
   \<and> is_canon_printer (pre @ ''ij'' @ post) \<and> is_canon_printer (pre @ ''mb'' @ post)
   \<and> is_canon_printer (pre @ ''mx'' @ post) \<and> is_canon_printer (pre @ ''mp'' @ post)
   \<and> is_canon_printer (pre @ ''mg'' @ post) \<and> is_canon_printer (pre @ ''mf'' @ post)
   \<and> is_canon_printer ''Jumbo''"
proof -
  have iff: "is_canon_printer name \<longleftrightarrow>
      (\<exists>keyword\<in>set canon_keywords. \<exists>pre post. lower name = pre @ keyword @ post)"
    by (simp add: is_canon_printer_def any_keyword_in_iff)
  have frag: "is_canon_printer (pre @ k @ post)"
    if "k \<in> set [''ij'', ''mb'', ''mx'', ''mp'', ''mg'', ''mf'']" for k
  proof (rule keyword_embedded)
    show "k \<in> set canon_keywords" using that by (auto simp: canon_keywords_def)
    show "lower k = k" using that lower_fragment by auto
  qed
  have jumbo: "is_canon_printer ''Jumbo''"
    using keyword_embedded [of "''mb''" "''Ju''" "''o''"] lower_fragment(2)
    by (simp add: canon_keywords_def)
  from iff jumbo frag [of "''ij''"] frag [of "''mb''"] frag [of "''mx''"]
    frag [of "''mp''"] frag [of "''mg''"] frag [of "''mf''"]
  show ?thesis by simp
qed

subsection \<open>Removal of duplicates\<close>

lemma has_str_uri_iff: "has_str_uri p \<longleftrightarrow> (\<exists>u. uri_of p = Some (PStr u))"
  by (auto simp: has_str_uri_def split: option.splits pyval.splits)

lemma unique_loop_keep_first:
  "list_all has_str_uri ps \<Longrightarrow>
   unique_loop acc ps = Inr (acc @ map (\<lambda>p. (the (uri_of p), p)) (keep_first (fst ` set acc) ps))"
proof (induction ps arbitrary: acc)
  case Nil
  then show ?case by simp
next
  case (Cons p ps)
  from Cons.prems have hp: "has_str_uri p" and rest: "list_all has_str_uri ps"
    by simp_all
  from hp obtain u where u: "uri_of p = Some (PStr u)"
    using has_str_uri_iff by blast
  have key: "map_of acc (PStr u) = None \<longleftrightarrow> PStr u \<notin> fst ` set acc"
    by (simp add: map_of_eq_None_iff)
  show ?case
  proof (cases "PStr u \<in> fst ` set acc")
    case True
    with u key Cons.IH [OF rest, of acc] show ?thesis
      by (auto simp: uri_of_def)
  next
    case False
    with u key Cons.IH [OF rest, of "acc @ [(PStr u, p)]"] show ?thesis
      by (auto simp: uri_of_def)
  qed
qed

lemma remove_duplicates_keep_first:
  "list_all has_str_uri ps \<Longrightarrow> remove_duplicates ps = Inr (keep_first {} ps)"
  by (simp add: remove_duplicates_def unique_loop_keep_first comp_def)

lemma keep_first_subseq: "subseq (keep_first seen ps) ps"
  by (induction ps arbitrary: seen) (auto split: option.splits)

lemma keep_first_uri_unseen:
  "r \<in> set (keep_first seen ps) \<Longrightarrow> \<exists>u. uri_of r = Some u \<and> u \<notin> seen"
  by (induction ps arbitrary: seen) (auto split: option.splits if_splits)

lemma keep_first_distinct: "distinct (map uri_of (keep_first seen ps))"
proof (induction ps arbitrary: seen)
  case Nil
  then show ?case by simp
next
  case (Cons p ps)
  show ?case
  proof (cases "uri_of p")
    case None
    then show ?thesis using Cons.IH by simp
  next
    case (Some u)
    have "Some u \<notin> uri_of ` set (keep_first (insert u seen) ps)"
      using keep_first_uri_unseen [of _ "insert u seen" ps] by force
    then show ?thesis using Some Cons.IH by simp
  qed
qed

lemma find_keep_first:
  "find (\<lambda>r. uri_of r = Some u) (keep_first seen ps) =
     (if u \<in> seen then None else find (\<lambda>p. uri_of p = Some u) ps)"
proof (induction ps arbitrary: seen)
  case Nil
  then show ?case by simp
next
  case (Cons p ps)
  show ?case
  proof (cases "uri_of p")
    case None
    then show ?thesis using Cons.IH by simp
  next
    case (Some v)
    then show ?thesis using Cons.IH [of seen] Cons.IH [of "insert v seen"] by auto
  qed
qed

subsection \<open>The records of the producers\<close>

lemma manual_loop_has_str_uri: "list_all has_str_uri (manual_loop e items)"
  by (induction e items rule: manual_loop.induct)
     (simp_all add: has_str_uri_def uri_of_def Let_def)

lemma get_manual_printers_has_str_uri: "list_all has_str_uri (get_manual_printers e)"
  by (simp add: get_manual_printers_def manual_loop_has_str_uri split: option.splits)

lemma manual_part: "(case config_manager e of None \<Rightarrow> [] | Some c \<Rightarrow> get_manual_printers e) = get_manual_printers e"
  by (simp add: get_manual_printers_def split: option.splits)

lemma scan_ports_has_str_uri: "snd (scan_ports e ip ports) = Some r \<Longrightarrow> has_str_uri r"
  by (induction ports) (auto simp: has_str_uri_def uri_of_def split: option.splits if_splits)

lemma scan_host_has_str_uri: "scan_host_for_ipp e ip = Some r \<Longrightarrow> has_str_uri r"
  using scan_ports_has_str_uri by (simp add: scan_host_for_ipp_def)

lemma mset_collect: "mset (collect results) = {#the x. x \<in># filter_mset (\<lambda>x. x \<noteq> None) (mset results)#}"
  by (induction results rule: collect.induct) simp_all

lemma mset_sweep:
  "completes_each_once e \<Longrightarrow>
   mset (sweep e ranges) = mset (collect (map (scan_host_for_ipp e) (submitted_hosts ranges)))"
  by (simp add: sweep_def completes_each_once_def mset_collect)

lemma set_collect: "set (collect results) = {r. Some r \<in> set results}"
  by (induction results rule: collect.induct) auto

lemma sweep_has_str_uri:
  assumes "completes_each_once e"
  shows "list_all has_str_uri (sweep e ranges)"
proof -
  have "set (sweep e ranges) = set (collect (map (scan_host_for_ipp e) (submitted_hosts ranges)))"
    using mset_sweep [OF assms] by (metis set_mset_mset)
  then show ?thesis
    using scan_host_has_str_uri by (auto simp: list_all_iff set_collect)
qed

lemma mdns_line_has_str_uri: "list_all has_str_uri (mdns_line line)"
  by (simp add: mdns_line_def has_str_uri_def uri_of_def Let_def)

lemma discover_mdns_has_str_uri:
  "discover_mdns_printers e = Inr mdns \<Longrightarrow> list_all has_str_uri mdns"
  by (auto simp: discover_mdns_printers_def list_all_iff split: proc_result.splits if_splits
           dest: mdns_line_has_str_uri [unfolded list_all_iff, rule_format])

lemma gathered_eq:
  "gathered e mdns = get_manual_printers e @ system_printers e @ discover_network_printers e @ mdns"
  by (simp add: gathered_def manual_part)

lemma gathered_has_str_uri:
  assumes "completes_each_once e" "list_all has_str_uri (system_printers e)"
    "discover_mdns_printers e = Inr mdns"
  shows "list_all has_str_uri (gathered e mdns)"
  using assms get_manual_printers_has_str_uri [of e] sweep_has_str_uri [of e]
    discover_mdns_has_str_uri [of e mdns]
  by (simp add: gathered_eq discover_network_printers_def)

lemma find_canon_printers_keep_first:
  assumes "completes_each_once e" "list_all has_str_uri (system_printers e)"
    "discover_mdns_printers e = Inr mdns"
  shows "find_canon_printers e = Inr (keep_first {} (gathered e mdns))"
  using assms gathered_has_str_uri [OF assms]
  by (simp add: find_canon_printers_def remove_duplicates_keep_first)

lemma first_with_uri_keep_first: "first_with_uri u (keep_first {} ps) = first_with_uri u ps"
  by (simp add: first_with_uri_def find_keep_first)

subsection \<open>Rendered addresses are distinct\<close>

lemma index_of_nth:
  assumes "distinct xs" "n < length xs"
  shows "length (takeWhile (\<lambda>d. d \<noteq> xs ! n) xs) = n"
proof -
  have "takeWhile (\<lambda>d. d \<noteq> xs ! n) xs = take n xs"
    using assms by (intro takeWhile_eq_take_P_nth) (auto simp: nth_eq_iff_index_eq)
  then show ?thesis using assms by simp
qed

lemma digit_val_digit_char: "d < 10 \<Longrightarrow> digit_val (digit_char d) = d"
  unfolding digit_val_def digit_char_def by (rule index_of_nth) simp_all

lemma digit_char_is_digit: "d < 10 \<Longrightarrow> is_digit (digit_char d)"
  unfolding is_digit_def digit_char_def by (rule nth_mem) simp

lemma nat_of_digits_snoc: "nat_of_digits (s @ [c]) = 10 * nat_of_digits s + digit_val c"
  by (simp add: nat_of_digits_def)

lemma nat_of_digits_str_nat: "nat_of_digits (str_nat n) = n"
proof (induction n rule: str_nat.induct)
  case (1 n)
  show ?case
  proof (cases "n < 10")
    case True
    then show ?thesis
      using nat_of_digits_snoc [of "[]" "digit_char n"]
      by (simp add: str_nat.simps [of n] digit_val_digit_char nat_of_digits_def)
  next
    case False
    then show ?thesis
      using "1.IH" by (simp add: str_nat.simps [of n] nat_of_digits_snoc digit_val_digit_char)
  qed
qed

lemma str_nat_inj: "str_nat a = str_nat b \<Longrightarrow> a = b"
  by (metis nat_of_digits_str_nat)

lemma str_nat_digits: "list_all is_digit (str_nat n)"
proof (induction n rule: str_nat.induct)
  case (1 n)
  show ?case
  proof (cases "n < 10")
    case True
    then show ?thesis by (simp add: str_nat.simps [of n] digit_char_is_digit)
  next
    case False
    then show ?thesis using "1.IH" by (simp add: str_nat.simps [of n] digit_char_is_digit)
  qed
qed

lemma str_nat_no_dot: "CHR ''.'' \<notin> set (str_nat n)"
proof
  assume "CHR ''.'' \<in> set (str_nat n)"
  then have "is_digit CHR ''.''"
    using str_nat_digits [of n] by (simp add: list_all_iff)
  then show False
    by (simp add: is_digit_def)
qed



lemma split_at_first:
  "c \<notin> set xs \<Longrightarrow> c \<notin> set ys \<Longrightarrow> xs @ c # r = ys @ c # r' \<Longrightarrow> xs = ys \<and> r = r'"
proof (induction xs arbitrary: ys)
  case Nil
  then show ?case by (cases ys) auto
next
  case (Cons x xs)
  then show ?case by (cases ys) auto
qed

lemma str_ip_octets:
  assumes "str_ip a = str_ip b"
  shows "a div 16777216 mod 256 = b div 16777216 mod 256 \<and> a div 65536 mod 256 = b div 65536 mod 256
       \<and> a div 256 mod 256 = b div 256 mod 256 \<and> a mod 256 = b mod 256"
proof -
  let ?d = "CHR ''.''"
  from assms have e1: "str_nat (a div 16777216 mod 256) @ ?d # (str_nat (a div 65536 mod 256) @ ?d #
       (str_nat (a div 256 mod 256) @ ?d # str_nat (a mod 256)))
     = str_nat (b div 16777216 mod 256) @ ?d # (str_nat (b div 65536 mod 256) @ ?d #
       (str_nat (b div 256 mod 256) @ ?d # str_nat (b mod 256)))"
    by (simp add: str_ip_def)
  from split_at_first [OF str_nat_no_dot str_nat_no_dot e1]
  have o1: "str_nat (a div 16777216 mod 256) = str_nat (b div 16777216 mod 256)"
    and e2: "str_nat (a div 65536 mod 256) @ ?d # (str_nat (a div 256 mod 256) @ ?d # str_nat (a mod 256))
       = str_nat (b div 65536 mod 256) @ ?d # (str_nat (b div 256 mod 256) @ ?d # str_nat (b mod 256))"
    by simp_all
  from split_at_first [OF str_nat_no_dot str_nat_no_dot e2]
  have o2: "str_nat (a div 65536 mod 256) = str_nat (b div 65536 mod 256)"
    and e3: "str_nat (a div 256 mod 256) @ ?d # str_nat (a mod 256)
       = str_nat (b div 256 mod 256) @ ?d # str_nat (b mod 256)"
    by simp_all
  from split_at_first [OF str_nat_no_dot str_nat_no_dot e3]
  have o3: "str_nat (a div 256 mod 256) = str_nat (b div 256 mod 256)"
    and o4: "str_nat (a mod 256) = str_nat (b mod 256)"
    by simp_all
  from o1 o2 o3 o4 show ?thesis by (simp add: str_nat_inj)
qed

lemma octets_determine:
  fixes a :: nat
  assumes "a < 4294967296"
  shows "a = ((a div 16777216 mod 256 * 256 + a div 65536 mod 256) * 256 + a div 256 mod 256) * 256 + a mod 256"
proof -
  define q1 where "q1 = a div 256"
  define q2 where "q2 = a div 65536"
  define q3 where "q3 = a div 16777216"
  have d2: "q1 div 256 = q2" and d3: "q2 div 256 = q3"
    by (simp_all add: q1_def q2_def q3_def div_mult2_eq [symmetric])
  have s1: "a = q1 * 256 + a mod 256"
    by (simp add: q1_def)
  have s2: "q1 = q2 * 256 + q1 mod 256"
    using div_mult_mod_eq [of q1 256] d2 by simp
  have s3: "q2 = q3 * 256 + q2 mod 256"
    using div_mult_mod_eq [of q2 256] d3 by simp
  have "q3 < 256"
    using assms by (simp add: q3_def div_less_iff_less_mult)
  then have s4: "q3 mod 256 = q3"
    by simp
  have "a = ((q3 mod 256 * 256 + q2 mod 256) * 256 + q1 mod 256) * 256 + a mod 256"
  proof -
    have "a = (q2 * 256 + q1 mod 256) * 256 + a mod 256"
      using s1 s2 by simp
    also have "q2 = q3 mod 256 * 256 + q2 mod 256"
      using s3 s4 by simp
    finally show ?thesis .
  qed
  then show ?thesis
    by (simp only: q1_def q2_def q3_def)
qed

lemma str_ip_inj:
  assumes "a < 4294967296" "b < 4294967296" "str_ip a = str_ip b"
  shows "a = b"
proof -
  note oct = str_ip_octets [OF assms(3)]
  have "a = ((a div 16777216 mod 256 * 256 + a div 65536 mod 256) * 256 + a div 256 mod 256) * 256 + a mod 256"
    using assms(1) by (rule octets_determine)
  also have "\<dots> = ((b div 16777216 mod 256 * 256 + b div 65536 mod 256) * 256 + b div 256 mod 256) * 256 + b mod 256"
    by (simp only: oct)
  also have "\<dots> = b"
    using assms(2) by (rule octets_determine [symmetric])
  finally show ?thesis .
qed

subsection \<open>Addresses of a network\<close>

lemma in_addresses_iff:
  "a \<in> set (addresses net) \<longleftrightarrow>
     network_address net \<le> a \<and> a < network_address net + 2 ^ (32 - prefixlen net)"
proof
  assume "a \<in> set (addresses net)"
  then show "network_address net \<le> a \<and> a < network_address net + 2 ^ (32 - prefixlen net)"
    by (auto simp: addresses_def)
next
  assume r: "network_address net \<le> a \<and> a < network_address net + 2 ^ (32 - prefixlen net)"
  define n :: nat where "n = 2 ^ (32 - prefixlen net)"
  from r have "network_address net \<le> a" "a < network_address net + n"
    by (simp_all add: n_def)
  then have "a = network_address net + (a - network_address net)"
    and "a - network_address net < n"
    by linarith+
  then have "a = network_address net + (a - network_address net)"
    and "a - network_address net < 2 ^ (32 - prefixlen net)"
    by (simp_all add: n_def)
  then show "a \<in> set (addresses net)"
    unfolding addresses_def set_map set_upt by (metis atLeastLessThan_iff image_eqI zero_le)
qed

lemma distinct_addresses: "distinct (addresses net)"
  by (simp add: addresses_def distinct_map inj_on_def)

lemma distinct_submitted_hosts:
  assumes "network_address net + 2 ^ (32 - prefixlen net) \<le> 4294967296"
  shows "distinct (submitted_hosts [net])"
proof -
  have "inj_on str_ip (set (addresses net))"
  proof (rule inj_onI)
    fix a b
    assume "a \<in> set (addresses net)" "b \<in> set (addresses net)" "str_ip a = str_ip b"
    then show "a = b"
      using assms str_ip_inj [of a b] by (simp add: in_addresses_iff)
  qed
  then show ?thesis
    by (simp add: submitted_hosts_def distinct_map distinct_addresses)
qed

lemma hosts_192_168_1:
  "distinct (submitted_hosts [net_192_168_1])"
  "''192.168.1.5'' \<in> set (submitted_hosts [net_192_168_1])"
proof -
  show "distinct (submitted_hosts [net_192_168_1])"
    by (rule distinct_submitted_hosts) (simp add: net_192_168_1_def ip4_def)
  have "str_ip (ip4 192 168 1 5) = ''192.168.1.5''"
    by (simp add: str_ip_def ip4_def str_nat.simps digit_char_def)
  moreover have "ip4 192 168 1 5 \<in> set (addresses net_192_168_1)"
    by (simp add: in_addresses_iff net_192_168_1_def ip4_def)
  ultimately show "''192.168.1.5'' \<in> set (submitted_hosts [net_192_168_1])"
    by (force simp: submitted_hosts_def)
qed

subsection \<open>A sweep with one responding host\<close>

lemma filter_eq_single: "distinct xs \<Longrightarrow> h \<in> set xs \<Longrightarrow> filter (\<lambda>x. x = h) xs = [h]"
  by (induction xs) (auto simp: filter_empty_conv)

lemma collect_single_responder:
  assumes "f h = Some r" "\<forall>x. x \<noteq> h \<longrightarrow> f x = None"
  shows "collect (map f xs) = map (\<lambda>x. r) (filter (\<lambda>x. x = h) xs)"
proof (induction xs)
  case Nil
  then show ?case by simp
next
  case (Cons x xs)
  then show ?case using assms by (cases "x = h") simp_all
qed

lemma sweep_single_responder:
  assumes "completes_each_once e" "distinct (submitted_hosts ranges)"
    "h \<in> set (submitted_hosts ranges)"
    "scan_host_for_ipp e h = Some r" "\<forall>ip. ip \<noteq> h \<longrightarrow> scan_host_for_ipp e ip = None"
  shows "sweep e ranges = [r]"
proof -
  have "collect (map (scan_host_for_ipp e) (submitted_hosts ranges)) = [r]"
    using collect_single_responder [OF assms(4,5)] filter_eq_single [OF assms(2,3)] by simp
  then have "mset (sweep e ranges) = {#r#}"
    using mset_sweep [OF assms(1)] by simp
  then show ?thesis
    by (simp add: mset_single_iff_right)
qed

subsection \<open>Scanning one host\<close>

lemma get_info_of_banner:
  assumes "http_get e (''http://'' @ ip @ '':'' @ str_int port) = Some (200, body)"
  shows "get_ipp_printer_info e ip port =
     (if any_keyword_in (lower body)
      then Some [(''name'', display_name ip body), (''model'', extract_model (display_name ip body)),
                 (''status'', ''Available'')]
      else None)"
  using assms by (simp add: get_ipp_printer_info_def display_name_def Let_def split: option.splits)

lemma port_matches_banner:
  assumes "is_port_open e ip port 1"
    "http_get e (''http://'' @ ip @ '':'' @ str_int port) = Some (200, body)"
  shows "port_matches e ip port \<longleftrightarrow>
     any_keyword_in (lower body) \<and> is_canon_printer (display_name ip body)"
  using assms by (simp add: port_matches_def get_info_of_banner sget_def)

lemma scan_ports_no_match:
  "\<not> port_matches e ip port \<Longrightarrow>
   scan_ports e ip (port # ports) = (port # fst (scan_ports e ip ports), snd (scan_ports e ip ports))"
  by (auto simp: port_matches_def split: option.splits)

lemma scan_ports_match:
  assumes "port_matches e ip port"
    "http_get e (''http://'' @ ip @ '':'' @ str_int port) = Some (200, body)"
  shows "scan_ports e ip (port # ports) = ([port], Some (network_record ip port body))"
proof -
  from assms(1) have op: "is_port_open e ip port 1"
    by (simp add: port_matches_def)
  from assms(1) port_matches_banner [OF op assms(2)]
  have "any_keyword_in (lower body)" "is_canon_printer (display_name ip body)"
    by simp_all
  then show ?thesis
    using op get_info_of_banner [OF assms(2)]
    by (simp add: network_record_def sget_def)
qed

lemma scan_ports_all_closed:
  "list_all (\<lambda>port. \<not> is_port_open e ip port 1) ports \<Longrightarrow> scan_ports e ip ports = (ports, None)"
  by (induction ports) simp_all

subsection \<open>Matches are parts of the text\<close>

lemma first_some_SomeD: "first_some f ks = Some r \<Longrightarrow> \<exists>k\<in>set ks. f k = Some r"
  by (induction ks) (auto split: option.splits)

lemma match_here_prefix: "match_here r s = Some m \<Longrightarrow> prefix (concat m) s"
proof (induction r arbitrary: s m)
  case Nil
  then show ?case by simp
next
  case (Cons item items)
  from Cons.prems obtain k where
    k: "map_option (Cons (take k s)) (match_here items (drop k s)) = Some m"
    by (auto simp: Let_def dest: first_some_SomeD)
  then obtain m' where m': "match_here items (drop k s) = Some m'" and m: "m = take k s # m'"
    by auto
  from Cons.IH [OF m'] obtain rest where "drop k s = concat m' @ rest"
    by (auto simp: prefix_def)
  then have "s = (take k s @ concat m') @ rest"
    by (metis append_take_drop_id append.assoc)
  then show ?case
    using m by (metis concat.simps(2) prefixI)
qed

lemma re_search_sublist: "re_search r s = Some m \<Longrightarrow> sublist (concat m) s"
proof (induction r s rule: re_search.induct)
  case (1 r)
  then show ?case using match_here_prefix by (fastforce simp: prefix_def sublist_def)
next
  case (2 r c cs)
  show ?case
  proof (cases "match_here r (c # cs)")
    case None
    with 2 have "sublist (concat m) cs" by simp
    then show ?thesis by (simp add: sublist_Cons_right)
  next
    case (Some a)
    with 2 have "match_here r (c # cs) = Some m" by simp
    then show ?thesis using match_here_prefix prefix_imp_sublist by blast
  qed
qed

lemma group_at_sublist: "sublist (group_at i n m) (concat m)"
proof -
  have "m = take i m @ take n (drop i m) @ drop n (drop i m)"
    by (simp only: append_take_drop_id)
  then have "concat m = concat (take i m) @ group_at i n m @ concat (drop n (drop i m))"
    unfolding group_at_def by (metis concat_append)
  then show ?thesis
    unfolding sublist_def by blast
qed

lemma sublist_lower: "sublist xs ys \<Longrightarrow> sublist (lower xs) (lower ys)"
  unfolding sublist_def lower_def by (metis map_append)


lemma title_implies_keyword:
  assumes "re_search title_pattern body = Some m" "str_in keyword (lower (group_at 7 1 m))"
    "keyword \<in> set canon_keywords"
  shows "any_keyword_in (lower body)"
proof -
  have "sublist (group_at 7 1 m) body"
    using group_at_sublist [of 7 1 m] re_search_sublist [OF assms(1)] sublist_order.order.trans by blast
  then have "sublist keyword (lower body)"
    using assms(2) sublist_lower sublist_order.order.trans by (fastforce simp: str_in_iff_sublist)
  then show ?thesis
    using assms(3) by (auto simp: any_keyword_in_def list_ex_iff str_in_iff_sublist)
qed

subsection \<open>Model extraction takes the first matching pattern\<close>

lemma first_model_match_skip:
  "list_all (\<lambda>p. re_search p s = None) before \<Longrightarrow>
   first_model_match (before @ rest) s = first_model_match rest s"
  by (induction before) simp_all

lemma extract_model_fallback:
  "list_all (\<lambda>p. re_search p (upper name) = None) model_patterns \<Longrightarrow>
   extract_model name = ''Canon Printer''"
  using first_model_match_skip [of "upper name" model_patterns "[]"]
  by (simp add: extract_model_def)

lemma extract_model_first_match:
  assumes "model_patterns = before @ pattern # after"
    "list_all (\<lambda>p. re_search p (upper name) = None) before"
    "re_search pattern (upper name) = Some m"
  shows "extract_model name = ''Canon '' @ group0 m \<and> sublist (group0 m) (upper name)"
  using assms first_model_match_skip [of "upper name" before "pattern # after"]
    re_search_sublist [OF assms(3)]
  by (simp add: extract_model_def group0_def)

subsection \<open>The PIXMA scenario\<close>

lemma pixma_strings:
  "''http://'' @ ''192.168.1.5'' @ '':'' @ str_int 631 = ''http://192.168.1.5:631''"
  "''ipp://'' @ ''192.168.1.5'' @ '':'' @ str_int 631 @ ''/ipp/print'' = ''ipp://192.168.1.5:631/ipp/print''"
  "is_canon_printer ''Canon PIXMA TS3400''"
  "extract_model ''Canon PIXMA TS3400'' = ''Canon PIXMA TS3400''"
  "str_in ''canon'' (lower ''Canon PIXMA TS3400'')"
  by code_simp+

lemma sweep_one_pixma:
  assumes ports: "ipp_ports e = 631 # rest"
    and once: "completes_each_once e"
    and only: "\<forall>ip port. is_port_open e ip port 1 \<longleftrightarrow> ip = ''192.168.1.5'' \<and> port = 631"
    and banner: "http_get e ''http://192.168.1.5:631'' = Some (200, body)"
    and title: "re_search title_pattern body = Some title"
    and name: "group_at 7 1 title = ''Canon PIXMA TS3400''"
  shows "sweep e [net_192_168_1] = [pixma_record]"
proof -
  let ?h = "''192.168.1.5''"
  have url: "http_get e (''http://'' @ ?h @ '':'' @ str_int 631) = Some (200, body)"
    using banner by (simp only: pixma_strings)
  have dn: "display_name ?h body = ''Canon PIXMA TS3400''"
    using title name by (simp add: display_name_def)
  have kw: "any_keyword_in (lower body)"
    using title_implies_keyword [OF title, of "''canon''"] name pixma_strings(5)
    by (simp add: canon_keywords_def)
  have op: "is_port_open e ?h 631 1"
    using only by simp
  have "port_matches e ?h 631"
    using port_matches_banner [OF op url] kw dn pixma_strings(3) by simp
  then have "scan_ports e ?h (631 # rest) = ([631], Some (network_record ?h 631 body))"
    using url by (rule scan_ports_match)
  moreover have "network_record ?h 631 body = pixma_record"
    unfolding network_record_def pixma_record_def dn pixma_strings ..
  ultimately have responder: "scan_host_for_ipp e ?h = Some pixma_record"
    by (simp add: scan_host_for_ipp_def ports)
  have others: "\<forall>ip. ip \<noteq> ?h \<longrightarrow> scan_host_for_ipp e ip = None"
    using only scan_ports_all_closed [of e _ "631 # rest"]
    by (simp add: scan_host_for_ipp_def ports list_all_iff)
  show ?thesis
    using once hosts_192_168_1 responder others by (rule sweep_single_responder)
qed

lemma pixma_facts:
  "ipp_ports pixma_env = 631 # [9100, 8080, 80]"
  "completes_each_once pixma_env"
  "\<forall>ip port. is_port_open pixma_env ip port 1 \<longleftrightarrow> ip = ''192.168.1.5'' \<and> port = 631"
  "http_get pixma_env ''http://192.168.1.5:631'' = Some (200, pixma_banner)"
  by (simp_all add: pixma_env_def quiet_env_def completes_each_once_def is_port_open_def)

lemma pixma_631_facts:
  "ipp_ports pixma_env_631 = [631]"
  "completes_each_once pixma_env_631"
  "\<forall>ip port. is_port_open pixma_env_631 ip port 1 \<longleftrightarrow> ip = ''192.168.1.5'' \<and> port = 631"
  "http_get pixma_env_631 ''http://192.168.1.5:631'' = Some (200, pixma_banner)"
  by (simp_all add: pixma_env_631_def pixma_env_def quiet_env_def completes_each_once_def
      is_port_open_def)

lemma pixma_title:
  "re_search title_pattern pixma_banner =
     Some [''<'', ''t'', ''i'', ''t'', ''l'', ''e'', ''>'', ''Canon PIXMA TS3400'',
           ''<'', ''/'', ''t'', ''i'', ''t'', ''l'', ''e'', ''>'']"
  "group_at 7 1 [''<'', ''t'', ''i'', ''t'', ''l'', ''e'', ''>'', ''Canon PIXMA TS3400'',
           ''<'', ''/'', ''t'', ''i'', ''t'', ''l'', ''e'', ''>''] = ''Canon PIXMA TS3400''"
  by code_simp+

lemma gateway_strings:
  "find (\<lambda>line. str_in ''gateway:'' line)
     (split_char newline (''   route to: default'' @ [newline] @ ''    gateway: 192.168.1.1''))
     = Some ''    gateway: 192.168.1.1''"
  "nth_opt (split_char CHR '':'' ''    gateway: 192.168.1.1'') 1 = Some '' 192.168.1.1''"
  "join ''.'' (butlast (split_char CHR ''.'' (strip '' 192.168.1.1''))) @ ''.0/24'' = ''192.168.1.0/24''"
  by code_simp+

lemma get_network_ranges_gateway:
  assumes "route_get_default e = Completed 0 stdout"
    "find (\<lambda>line. str_in ''gateway:'' line) (split_char newline stdout) = Some line"
    "nth_opt (split_char CHR '':'' line) 1 = Some field"
    "ipv4_network_of e (join ''.'' (butlast (split_char CHR ''.'' (strip field))) @ ''.0/24'') = Some network"
  shows "get_network_ranges e = [network]"
  using assms by (simp add: get_network_ranges_def)

lemma pixma_ranges: "get_network_ranges pixma_env = [net_192_168_1]"
proof (rule get_network_ranges_gateway)
  show "route_get_default pixma_env =
      Completed 0 (''   route to: default'' @ [newline] @ ''    gateway: 192.168.1.1'')"
    by (simp add: pixma_env_def quiet_env_def)
  show "find (\<lambda>line. str_in ''gateway:'' line)
     (split_char newline (''   route to: default'' @ [newline] @ ''    gateway: 192.168.1.1''))
     = Some ''    gateway: 192.168.1.1''"
    by (rule gateway_strings)
  show "nth_opt (split_char CHR '':'' ''    gateway: 192.168.1.1'') 1 = Some '' 192.168.1.1''"
    by (rule gateway_strings)
  show "ipv4_network_of pixma_env
      (join ''.'' (butlast (split_char CHR ''.'' (strip '' 192.168.1.1''))) @ ''.0/24'') = Some net_192_168_1"
    unfolding gateway_strings by (simp add: pixma_env_def quiet_env_def)
qed

subsection \<open>C1: the record of a network scan\<close>

lemma get_network_ranges_cong:
  assumes "route_get_default e' = route_get_default e" "ipv4_network_of e' = ipv4_network_of e"
  shows "get_network_ranges e' = get_network_ranges e"
  unfolding get_network_ranges_def assms ..

text \<open>
  C1 (as amended): for a sweep of 192.168.1.0/24 with the ports [631], where only
  192.168.1.5 accepts the connection and the title of its page is \<open>Canon PIXMA TS3400\<close>,
  the network-scan contribution is exactly the record with uri
  \<open>ipp://192.168.1.5:631/ipp/print\<close>, name \<open>Canon PIXMA TS3400\<close>, model
  \<open>Canon PIXMA TS3400\<close> and source \<open>network_scan\<close>. For an ASCII name the model is
  \<open>Canon\<close> followed by the whole text matched by the first pattern, in list order, that
  matches the upper-cased name (for the first pattern this includes the word \<open>PIXMA\<close>), and
  \<open>Canon Printer\<close> when no pattern matches.
\<close>

theorem network_scan_record_of_pixma:
  assumes "ipp_ports e = [631]"
    and "completes_each_once e"
    and "\<forall>ip port. is_port_open e ip port 1 \<longleftrightarrow> ip = ''192.168.1.5'' \<and> port = 631"
    and "http_get e ''http://192.168.1.5:631'' = Some (200, body)"
    and "re_search title_pattern body = Some title"
    and "group_at 7 1 title = ''Canon PIXMA TS3400''"
  shows "sweep e [net_192_168_1] =
           [[(''name'', PStr ''Canon PIXMA TS3400''),
             (''uri'', PStr ''ipp://192.168.1.5:631/ipp/print''),
             (''status'', PStr ''Available''),
             (''model'', PStr ''Canon PIXMA TS3400''),
             (''source'', PStr ''network_scan'')]]
       \<and> (is_ascii name
            \<and> list_all (\<lambda>p. re_search p (upper name) = None) model_patterns
            \<longrightarrow> extract_model name = ''Canon Printer'')
       \<and> (is_ascii name
            \<and> model_patterns = before @ pattern # after
            \<and> list_all (\<lambda>p. re_search p (upper name) = None) before
            \<and> re_search pattern (upper name) = Some m
            \<longrightarrow> extract_model name = ''Canon '' @ group0 m \<and> sublist (group0 m) (upper name))"
  using sweep_one_pixma [OF assms] extract_model_fallback [of name]
    extract_model_first_match [of before pattern after name m]
  by (simp add: pixma_record_def)

text \<open>
  The scenario of C1: in \<open>pixma_env_631\<close> the hypotheses hold, the sweep gives the record,
  and the two branches of the model extraction are taken by three ASCII names.
\<close>

theorem network_scan_record_of_pixma_witness:
  "ipp_ports pixma_env_631 = [631]
   \<and> completes_each_once pixma_env_631
   \<and> (\<forall>ip port. is_port_open pixma_env_631 ip port 1 \<longleftrightarrow> ip = ''192.168.1.5'' \<and> port = 631)
   \<and> http_get pixma_env_631 ''http://192.168.1.5:631'' = Some (200, pixma_banner)
   \<and> group_at 7 1 (the (re_search title_pattern pixma_banner)) = ''Canon PIXMA TS3400''
   \<and> sweep pixma_env_631 [net_192_168_1] = [pixma_record]
   \<and> is_ascii ''Office printer'' \<and> is_ascii ''Canon PIXMA TS3400'' \<and> is_ascii ''Canon MX922 series''
   \<and> extract_model ''Office printer'' = ''Canon Printer''
   \<and> extract_model ''Canon PIXMA TS3400'' = ''Canon PIXMA TS3400''
   \<and> extract_model ''Canon MX922 series'' = ''Canon MX922''"
proof -
  note main = network_scan_record_of_pixma [OF pixma_631_facts pixma_title]
  have ascii: "is_ascii ''Office printer''" "is_ascii ''Canon PIXMA TS3400''"
    "is_ascii ''Canon MX922 series''"
    by (simp_all add: is_ascii_def)
  have none: "list_all (\<lambda>p. re_search p (upper ''Office printer'') = None) model_patterns"
    by code_simp
  have first: "model_patterns = [] @ hd model_patterns # tl model_patterns"
    "list_all (\<lambda>p. re_search p (upper ''Canon PIXMA TS3400'') = None) []"
    "re_search (hd model_patterns) (upper ''Canon PIXMA TS3400'')
       = Some [''P'', ''I'', ''X'', ''M'', ''A'', '' '', ''TS'', ''3400'']"
    by code_simp+
  have second: "model_patterns = [hd model_patterns] @ hd (tl model_patterns) # tl (tl model_patterns)"
    "list_all (\<lambda>p. re_search p (upper ''Canon MX922 series'') = None) [hd model_patterns]"
    "re_search (hd (tl model_patterns)) (upper ''Canon MX922 series'') = Some [''M'', ''X'', ''922'', []]"
    by code_simp+
  have "extract_model ''Office printer'' = ''Canon Printer''"
    using main [of "''Office printer''"] none ascii by simp
  moreover have "extract_model ''Canon PIXMA TS3400'' = ''Canon PIXMA TS3400''"
    using main [of "''Canon PIXMA TS3400''" "[]" "hd model_patterns" "tl model_patterns"] first ascii
    by (simp add: group0_def)
  moreover have "extract_model ''Canon MX922 series'' = ''Canon MX922''"
    using main [of "''Canon MX922 series''" "[hd model_patterns]" "hd (tl model_patterns)"
        "tl (tl model_patterns)"] second ascii
    by (simp add: group0_def)
  ultimately show ?thesis
    using main [of "''Office printer''"] pixma_631_facts pixma_title ascii
    by (simp add: pixma_record_def)
qed

text \<open>
  C1 as stated gives the model \<open>Canon TS3400\<close>. \<open>_extract_model\<close> returns
  \<open>match.group(0)\<close>, the whole match of \<open>PIXMA\s+([A-Z]+\d+)\<close>, so the model of the scenario is
  \<open>Canon PIXMA TS3400\<close>.
\<close>

theorem model_of_pixma_counterexample:
  "get_network_ranges pixma_env_631 = [net_192_168_1]
   \<and> ipp_ports pixma_env_631 = [631]
   \<and> discover_network_printers pixma_env_631 = [pixma_record]
   \<and> map_of pixma_record ''model'' = Some (PStr ''Canon PIXMA TS3400'')
   \<and> map_of pixma_record ''model'' \<noteq> Some (PStr ''Canon TS3400'')"
proof -
  have ranges: "get_network_ranges pixma_env_631 = [net_192_168_1]"
    using pixma_ranges get_network_ranges_cong [of pixma_env_631 pixma_env]
    by (simp add: pixma_env_631_def)
  have "sweep pixma_env_631 [net_192_168_1] = [pixma_record]"
    using pixma_631_facts pixma_title by (rule sweep_one_pixma)
  then show ?thesis
    using ranges pixma_631_facts(1)
    by (simp add: discover_network_printers_def pixma_record_def)
qed

subsection \<open>The office scenario\<close>

lemma office_facts:
  "ipp_ports office_env = 631 # [9100, 8080, 80]"
  "completes_each_once office_env"
  "\<forall>ip port. is_port_open office_env ip port 1 \<longleftrightarrow> ip = ''192.168.1.5'' \<and> port = 631"
  "http_get office_env ''http://192.168.1.5:631'' = Some (200, pixma_banner)"
  by (simp_all add: office_env_def pixma_env_def quiet_env_def completes_each_once_def is_port_open_def)

lemma office_network: "discover_network_printers office_env = [pixma_record]"
proof -
  have "get_network_ranges office_env = [net_192_168_1]"
    using pixma_ranges get_network_ranges_cong [of office_env pixma_env]
    by (simp add: office_env_def)
  moreover have "sweep office_env [net_192_168_1] = [pixma_record]"
    using office_facts pixma_title by (rule sweep_one_pixma)
  ultimately show ?thesis
    by (simp add: discover_network_printers_def)
qed

lemma office_manual: "get_manual_printers office_env = [office_record, attic_record]"
  by (simp add: get_manual_printers_def office_env_def pixma_env_def quiet_env_def office_cache_def
      dict_get_def test_printer_connection_def is_port_open_def office_record_def attic_record_def)

lemma office_others:
  "system_printers office_env = [usb_record]"
  "discover_mdns_printers office_env = Inr []"
  by (simp_all add: office_env_def pixma_env_def quiet_env_def discover_mdns_printers_def)

lemma office_gathered:
  "gathered office_env [] = [office_record, attic_record, usb_record, pixma_record]"
  by (simp add: gathered_eq office_manual office_others office_network)

lemma office_uris:
  "uri_of office_record = Some (PStr ''ipp://192.168.1.5:631/ipp/print'')"
  "uri_of attic_record = Some (PStr ''ipp://192.168.1.77:631/ipp/print'')"
  "uri_of usb_record = Some (PStr ''usb://Canon/MX920%20series'')"
  "uri_of pixma_record = Some (PStr ''ipp://192.168.1.5:631/ipp/print'')"
  by (simp_all add: uri_of_def office_record_def attic_record_def usb_record_def pixma_record_def)

lemma office_str_uris: "list_all has_str_uri [office_record, attic_record, usb_record, pixma_record]"
  by (simp add: has_str_uri_def office_uris)

lemma office_keep_first:
  "keep_first {} [office_record, attic_record, usb_record, pixma_record]
     = [office_record, attic_record, usb_record]"
  by (simp add: office_uris)

subsection \<open>C2: removal of duplicates\<close>

text \<open>
  C2: on every list of records (each with a string \<open>uri\<close>), \<open>remove_duplicates\<close> returns a
  list that keeps the order of the input, in which the record found for each \<open>uri\<close> is the
  first record of the input with that \<open>uri\<close>, whole and unchanged; no two records of the
  output have the same \<open>uri\<close> and the output is no longer than the input. This is what
  \<open>find_canon_printers\<close> returns for the concatenated contributions.
\<close>

theorem deduplication_keeps_first_record:
  assumes "list_all has_str_uri printers"
    and "completes_each_once e" and "list_all has_str_uri (system_printers e)"
    and "discover_mdns_printers e = Inr mdns"
  shows "(\<exists>unique. remove_duplicates printers = Inr unique
            \<and> subseq unique printers
            \<and> (\<forall>u. first_with_uri u unique = first_with_uri u printers)
            \<and> distinct (map uri_of unique)
            \<and> length unique \<le> length printers)
       \<and> (\<exists>out. find_canon_printers e = Inr out
            \<and> remove_duplicates (gathered e mdns) = Inr out
            \<and> distinct (map uri_of out)
            \<and> length out \<le> length (gathered e mdns))"
proof -
  have kf: "subseq (keep_first {} ps) ps \<and> distinct (map uri_of (keep_first {} ps))
      \<and> length (keep_first {} ps) \<le> length ps" for ps
    using keep_first_subseq [of "{}" ps] keep_first_distinct [of "{}" ps]
    by (simp add: list_emb_length)
  have g: "list_all has_str_uri (gathered e mdns)"
    using assms(2-4) by (rule gathered_has_str_uri)
  have "remove_duplicates printers = Inr (keep_first {} printers)"
    using assms(1) by (rule remove_duplicates_keep_first)
  moreover have "find_canon_printers e = Inr (keep_first {} (gathered e mdns))"
    using assms(2-4) by (rule find_canon_printers_keep_first)
  moreover have "remove_duplicates (gathered e mdns) = Inr (keep_first {} (gathered e mdns))"
    using g by (rule remove_duplicates_keep_first)
  ultimately show ?thesis
    using kf [of printers] kf [of "gathered e mdns"]
    by (simp add: first_with_uri_keep_first)
qed

text \<open>
  In the office scenario the page of 192.168.1.5 is found again by the sweep: its record
  is dropped whole, and the record from the cache stays as it is.
\<close>

theorem deduplication_keeps_first_record_witness:
  "list_all has_str_uri [office_record, attic_record, usb_record, pixma_record]
   \<and> completes_each_once office_env
   \<and> list_all has_str_uri (system_printers office_env)
   \<and> discover_mdns_printers office_env = Inr []
   \<and> gathered office_env [] = [office_record, attic_record, usb_record, pixma_record]
   \<and> remove_duplicates [office_record, attic_record, usb_record, pixma_record]
        = Inr [office_record, attic_record, usb_record]
   \<and> find_canon_printers office_env = Inr [office_record, attic_record, usb_record]
   \<and> distinct (map uri_of [office_record, attic_record, usb_record])"
proof -
  have sys: "list_all has_str_uri (system_printers office_env)"
    using office_str_uris by (simp add: office_others)
  note main = deduplication_keeps_first_record
    [OF office_str_uris office_facts(2) sys office_others(2)]
  have "remove_duplicates [office_record, attic_record, usb_record, pixma_record]
      = Inr [office_record, attic_record, usb_record]"
    by (simp only: remove_duplicates_keep_first [OF office_str_uris] office_keep_first)
  then show ?thesis
    using main sys office_str_uris office_facts(2) office_others(2)
    by (auto simp: office_gathered)
qed

subsection \<open>C3: the earliest producer wins\<close>

lemma find_app: "find P (xs @ ys) = (case find P xs of None \<Rightarrow> find P ys | Some x \<Rightarrow> Some x)"
  by (induction xs) simp_all

lemma first_with_uri_four:
  "first_with_uri u (a @ b @ c @ d) = contributed (earliest_source u a b c d) u a b c d"
  by (simp add: first_with_uri_def earliest_source_def find_app split: option.splits)

lemma first_with_uri_None_iff: "first_with_uri u ps = None \<longleftrightarrow> Some u \<notin> uri_of ` set ps"
  by (force simp: first_with_uri_def find_None_iff)

lemma contributed_arrival:
  assumes "src \<noteq> Some NetworkScan \<or> first_with_uri u c' = first_with_uri u c"
  shows "contributed src u a b c' d = contributed src u a b c d"
proof (cases src)
  case None
  then show ?thesis by simp
next
  case (Some s)
  then show ?thesis using assms by (cases s) auto
qed

lemma earliest_source_arrival:
  assumes "mset c' = mset c"
  shows "earliest_source u a b c' d = earliest_source u a b c d"
proof -
  have "set c' = set c"
    using assms by (rule mset_eq_setD)
  then have "first_with_uri u c' = None \<longleftrightarrow> first_with_uri u c = None"
    by (simp add: first_with_uri_None_iff)
  then show ?thesis
    by (simp add: earliest_source_def)
qed

lemma first_with_uri_in: "first_with_uri u ps = Some r \<Longrightarrow> r \<in> set ps \<and> uri_of r = Some u"
  unfolding first_with_uri_def by (metis (mono_tags, lifting) find_Some_iff nth_mem)

lemma first_with_uri_arrival:
  assumes "mset c' = mset c" "distinct (map uri_of c)"
  shows "first_with_uri u c' = first_with_uri u c"
proof (cases "first_with_uri u c")
  case None
  then have "first_with_uri u c' = None"
    using mset_eq_setD [OF assms(1)] by (simp add: first_with_uri_None_iff)
  then show ?thesis
    using None by simp
next
  case (Some r)
  have sets: "set c' = set c"
    using assms(1) by (rule mset_eq_setD)
  from Some have "Some u \<in> uri_of ` set c"
    using first_with_uri_None_iff [of u c] by simp
  then have "first_with_uri u c' \<noteq> None"
    using sets first_with_uri_None_iff [of u c'] by simp
  then obtain r' where r': "first_with_uri u c' = Some r'"
    by auto
  from first_with_uri_in [OF Some] first_with_uri_in [OF r'] sets
  have "r \<in> set c" "r' \<in> set c" "uri_of r = uri_of r'"
    by simp_all
  then have "r' = r"
    using assms(2) by (metis distinct_map inj_onD)
  then show ?thesis
    using Some r' by simp
qed

lemma office_result:
  "find_canon_printers office_env = Inr [office_record, attic_record, usb_record]"
proof -
  have "list_all has_str_uri (system_printers office_env)"
    using office_str_uris by (simp add: office_others)
  from find_canon_printers_keep_first [OF office_facts(2) this office_others(2)]
  show ?thesis
    by (simp only: office_gathered office_keep_first)
qed


lemma filter_uri_distinct:
  "distinct (map uri_of ps) \<Longrightarrow>
   filter (\<lambda>r. uri_of r = Some u) ps
     = (case first_with_uri u ps of None \<Rightarrow> [] | Some r \<Rightarrow> [r])"
proof (induction ps)
  case Nil
  then show ?case by (simp add: first_with_uri_def)
next
  case (Cons p ps)
  show ?case
  proof (cases "uri_of p = Some u")
    case True
    with Cons.prems have "Some u \<notin> uri_of ` set ps"
      by auto
    then have "filter (\<lambda>r. uri_of r = Some u) ps = []"
      by (force simp: filter_empty_conv)
    with True show ?thesis
      by (simp add: first_with_uri_def)
  next
    case False
    with Cons show ?thesis
      by (simp add: first_with_uri_def)
  qed
qed

lemma keep_first_only_one:
  "filter (\<lambda>r. uri_of r = Some u) (keep_first {} ps)
     = (case first_with_uri u ps of None \<Rightarrow> [] | Some r \<Rightarrow> [r])"
  using filter_uri_distinct [OF keep_first_distinct, of u "{}" ps]
  by (simp add: first_with_uri_keep_first)

text \<open>
  C3: for every \<open>uri\<close>, the list that \<open>find_canon_printers\<close> returns has exactly one
  record with this \<open>uri\<close> when some producer has one, and none otherwise: the record
  contributed by the earliest producer, in the order manual configuration, system
  enumeration, network scan, mDNS, that has a record with this \<open>uri\<close>; every other record
  with the \<open>uri\<close> is gone. Which producer that is does not depend on the order in which
  the network scan's results arrive, and the surviving record itself is the same for every
  arrival order unless it comes from the network scan (where it is the same as soon as the
  scan's records have different uris).
\<close>

theorem earliest_priority_source_wins:
  assumes "completes_each_once e"
    and "list_all has_str_uri (system_printers e)"
    and "discover_mdns_printers e = Inr mdns"
    and "mset arrival = mset (discover_network_printers e)"
  shows "\<exists>out out'.
      find_canon_printers e = Inr out
    \<and> remove_duplicates (get_manual_printers e @ system_printers e @ arrival @ mdns) = Inr out'
    \<and> first_with_uri u out =
        contributed
          (earliest_source u (get_manual_printers e) (system_printers e)
             (discover_network_printers e) mdns)
          u (get_manual_printers e) (system_printers e) (discover_network_printers e) mdns
    \<and> first_with_uri u out' =
        contributed
          (earliest_source u (get_manual_printers e) (system_printers e) arrival mdns)
          u (get_manual_printers e) (system_printers e) arrival mdns
    \<and> earliest_source u (get_manual_printers e) (system_printers e) arrival mdns
        = earliest_source u (get_manual_printers e) (system_printers e)
            (discover_network_printers e) mdns
    \<and> (earliest_source u (get_manual_printers e) (system_printers e)
            (discover_network_printers e) mdns \<noteq> Some NetworkScan
         \<longrightarrow> first_with_uri u out' = first_with_uri u out)
    \<and> (distinct (map uri_of (discover_network_printers e))
         \<longrightarrow> first_with_uri u out' = first_with_uri u out)
    \<and> records_with_uri u out =
        (case contributed
                (earliest_source u (get_manual_printers e) (system_printers e)
                   (discover_network_printers e) mdns)
                u (get_manual_printers e) (system_printers e) (discover_network_printers e) mdns
         of None \<Rightarrow> [] | Some r \<Rightarrow> [r])
    \<and> records_with_uri u out' =
        (case contributed
                (earliest_source u (get_manual_printers e) (system_printers e) arrival mdns)
                u (get_manual_printers e) (system_printers e) arrival mdns
         of None \<Rightarrow> [] | Some r \<Rightarrow> [r])
    \<and> distinct (map uri_of out) \<and> distinct (map uri_of out')"
proof -
  let ?M = "get_manual_printers e" and ?S = "system_printers e"
  let ?N = "discover_network_printers e"
  have g: "list_all has_str_uri (?M @ ?S @ ?N @ mdns)"
    using gathered_has_str_uri [OF assms(1-3)] by (simp add: gathered_eq)
  have "set arrival = set ?N"
    using assms(4) by (rule mset_eq_setD)
  with g have g': "list_all has_str_uri (?M @ ?S @ arrival @ mdns)"
    by (simp add: list_all_iff)
  have out: "find_canon_printers e = Inr (keep_first {} (?M @ ?S @ ?N @ mdns))"
    using find_canon_printers_keep_first [OF assms(1-3)] by (simp add: gathered_eq)
  have out': "remove_duplicates (?M @ ?S @ arrival @ mdns) = Inr (keep_first {} (?M @ ?S @ arrival @ mdns))"
    using g' by (rule remove_duplicates_keep_first)
  have src: "earliest_source u ?M ?S arrival mdns = earliest_source u ?M ?S ?N mdns"
    using assms(4) by (rule earliest_source_arrival)
  have same: "first_with_uri u (?M @ ?S @ arrival @ mdns) = first_with_uri u (?M @ ?S @ ?N @ mdns)"
    if "earliest_source u ?M ?S ?N mdns \<noteq> Some NetworkScan \<or> distinct (map uri_of ?N)"
  proof -
    from that have "earliest_source u ?M ?S ?N mdns \<noteq> Some NetworkScan
        \<or> first_with_uri u arrival = first_with_uri u ?N"
      using first_with_uri_arrival [OF assms(4), of u] by blast
    then show ?thesis
      unfolding first_with_uri_four src by (rule contributed_arrival)
  qed
  show ?thesis
    using out out' src same
    by (simp add: first_with_uri_keep_first first_with_uri_four records_with_uri_def
        keep_first_only_one keep_first_distinct)
qed


text \<open>
  In the office scenario the cache and the sweep both give a record for
  \<open>ipp://192.168.1.5:631/ipp/print\<close>, under different names: the record of the cache
  survives.
\<close>

theorem earliest_priority_source_wins_witness:
  "completes_each_once office_env
   \<and> list_all has_str_uri (system_printers office_env)
   \<and> discover_mdns_printers office_env = Inr []
   \<and> mset [pixma_record] = mset (discover_network_printers office_env)
   \<and> first_with_uri (PStr ''ipp://192.168.1.5:631/ipp/print'') (get_manual_printers office_env)
        = Some office_record
   \<and> first_with_uri (PStr ''ipp://192.168.1.5:631/ipp/print'') (discover_network_printers office_env)
        = Some pixma_record
   \<and> map_of office_record ''name'' = Some (PStr ''Office printer'')
   \<and> map_of pixma_record ''name'' = Some (PStr ''Canon PIXMA TS3400'')
   \<and> earliest_source (PStr ''ipp://192.168.1.5:631/ipp/print'') (get_manual_printers office_env)
        (system_printers office_env) (discover_network_printers office_env) [] = Some Manual
   \<and> (\<exists>out. find_canon_printers office_env = Inr out
         \<and> first_with_uri (PStr ''ipp://192.168.1.5:631/ipp/print'') out = Some office_record
         \<and> records_with_uri (PStr ''ipp://192.168.1.5:631/ipp/print'') out = [office_record])
   \<and> find_canon_printers office_env = Inr [office_record, attic_record, usb_record]
   \<and> pixma_record \<notin> set [office_record, attic_record, usb_record]"
proof -
  let ?u = "PStr ''ipp://192.168.1.5:631/ipp/print''"
  have sys: "list_all has_str_uri (system_printers office_env)"
    using office_str_uris by (simp add: office_others)
  have arrival: "mset [pixma_record] = mset (discover_network_printers office_env)"
    by (simp add: office_network)
  have manual: "first_with_uri ?u (get_manual_printers office_env) = Some office_record"
    by (simp add: first_with_uri_def office_manual office_uris)
  have network: "first_with_uri ?u (discover_network_printers office_env) = Some pixma_record"
    by (simp add: first_with_uri_def office_network office_uris)
  have src: "earliest_source ?u (get_manual_printers office_env) (system_printers office_env)
      (discover_network_printers office_env) [] = Some Manual"
    using manual by (simp add: earliest_source_def)
  have names: "map_of office_record ''name'' = Some (PStr ''Office printer'')"
    "map_of pixma_record ''name'' = Some (PStr ''Canon PIXMA TS3400'')"
    by (simp_all add: office_record_def pixma_record_def)
  from earliest_priority_source_wins [OF office_facts(2) sys office_others(2) arrival, of ?u]
  obtain out where "find_canon_printers office_env = Inr out"
    and "first_with_uri ?u out =
        contributed
          (earliest_source ?u (get_manual_printers office_env) (system_printers office_env)
             (discover_network_printers office_env) [])
          ?u (get_manual_printers office_env) (system_printers office_env)
          (discover_network_printers office_env) []"
    and "records_with_uri ?u out =
        (case contributed
                (earliest_source ?u (get_manual_printers office_env) (system_printers office_env)
                   (discover_network_printers office_env) [])
                ?u (get_manual_printers office_env) (system_printers office_env)
                (discover_network_printers office_env) []
         of None \<Rightarrow> [] | Some r \<Rightarrow> [r])"
    by blast
  then have survivor: "\<exists>out. find_canon_printers office_env = Inr out
      \<and> first_with_uri ?u out = Some office_record \<and> records_with_uri ?u out = [office_record]"
    using src manual by simp
  have gone: "pixma_record \<notin> set [office_record, attic_record, usb_record]"
    by (simp add: pixma_record_def office_record_def attic_record_def usb_record_def)
  show ?thesis
    using survivor gone office_result office_facts(2) sys office_others(2) arrival manual network
      src names
    by simp
qed

subsection \<open>C7: manually added printers\<close>

lemma manual_loop_eq:
  "manual_loop e items = map (\<lambda>(uri, printer_info). manual_record e uri printer_info) (filter manually_added items)"
  by (induction e items rule: manual_loop.induct)
     (simp_all add: manual_record_def manually_added_def Let_def)

lemma manual_record_fields:
  "map_of (manual_record e uri printer_info) ''uri'' = Some (PStr uri)"
  "map_of (manual_record e uri printer_info) ''status'' =
     Some (PStr (if test_printer_connection e uri then ''Available'' else ''Offline''))"
  "map_of (manual_record e uri printer_info) ''source'' = Some (PStr ''manual_config'')"
  by (simp_all add: manual_record_def)

text \<open>
  C7: for every cache entry that is flagged \<open>manually_added\<close>, the manual-config producer
  includes the record of this entry whatever the connection test says: its status is
  \<open>Available\<close> when \<open>test_printer_connection\<close> succeeds and \<open>Offline\<close> when it fails.
  The producer returns one record per flagged entry, in the order of the cache, and
  nothing else. The connection test is the port check of the parsed host on the parsed
  port (631 when the uri has none), with a timeout of five seconds, and fails when the
  uri cannot be parsed.
\<close>

theorem manual_printers_never_dropped:
  assumes "config_manager e = Some printers_cache"
  shows "get_manual_printers e =
           map (\<lambda>(uri, printer_info). manual_record e uri printer_info)
             (filter manually_added printers_cache)
       \<and> length (get_manual_printers e) = length (filter manually_added printers_cache)
       \<and> (\<forall>(uri, printer_info)\<in>set printers_cache.
             manually_added (uri, printer_info) \<longrightarrow>
               manual_record e uri printer_info \<in> set (get_manual_printers e)
             \<and> uri_of (manual_record e uri printer_info) = Some (PStr uri)
             \<and> map_of (manual_record e uri printer_info) ''status'' =
                 Some (PStr (if test_printer_connection e uri then ''Available'' else ''Offline'')))
       \<and> (urlparse e uri = Some (Some host, port) \<longrightarrow>
             test_printer_connection e uri =
               is_port_open e host (case port of None \<Rightarrow> 631 | Some p \<Rightarrow> if p = 0 then 631 else p) 5)
       \<and> (urlparse e uri = None \<longrightarrow> \<not> test_printer_connection e uri)"
proof -
  have eq: "get_manual_printers e =
      map (\<lambda>(uri, printer_info). manual_record e uri printer_info) (filter manually_added printers_cache)"
    using assms by (simp add: get_manual_printers_def manual_loop_eq)
  have "manual_record e uri printer_info \<in> set (get_manual_printers e)"
    if "(uri, printer_info) \<in> set printers_cache" "manually_added (uri, printer_info)"
    for uri printer_info
    unfolding eq using that by force
  then show ?thesis
    using eq manual_record_fields
    by (auto simp: uri_of_def test_printer_connection_def)
qed

text \<open>
  In the office scenario two of the three cache entries are flagged: the printer that
  answers is listed as \<open>Available\<close>, the one whose uri cannot be reached as \<open>Offline\<close>.
\<close>

theorem manual_printers_never_dropped_witness:
  "config_manager office_env = Some office_cache
   \<and> filter manually_added office_cache = take 2 office_cache
   \<and> get_manual_printers office_env = [office_record, attic_record]
   \<and> test_printer_connection office_env ''ipp://192.168.1.5:631/ipp/print''
   \<and> map_of office_record ''status'' = Some (PStr ''Available'')
   \<and> \<not> test_printer_connection office_env ''ipp://192.168.1.77:631/ipp/print''
   \<and> map_of attic_record ''status'' = Some (PStr ''Offline'')
   \<and> urlparse office_env ''ipp://192.168.1.5:631/ipp/print'' = Some (Some ''192.168.1.5'', Some 631)
   \<and> is_port_open office_env ''192.168.1.5'' 631 5
   \<and> urlparse office_env ''ipp://192.168.1.77:631/ipp/print'' = None"
proof -
  have cm: "config_manager office_env = Some office_cache"
    by (simp add: office_env_def)
  have flt: "filter manually_added office_cache = take 2 office_cache"
    by (simp add: office_cache_def manually_added_def dict_get_def)
  have up: "urlparse office_env ''ipp://192.168.1.5:631/ipp/print'' = Some (Some ''192.168.1.5'', Some 631)"
    "urlparse office_env ''ipp://192.168.1.77:631/ipp/print'' = None"
    "is_port_open office_env ''192.168.1.5'' 631 5"
    by (simp_all add: office_env_def pixma_env_def quiet_env_def is_port_open_def)
  note main = manual_printers_never_dropped [OF cm]
  have t1: "test_printer_connection office_env ''ipp://192.168.1.5:631/ipp/print''"
    using main [of "''ipp://192.168.1.5:631/ipp/print''" "''192.168.1.5''" "Some 631"] up by simp
  have t2: "\<not> test_printer_connection office_env ''ipp://192.168.1.77:631/ipp/print''"
    using main [of "''ipp://192.168.1.77:631/ipp/print''"] up by simp
  have st: "map_of office_record ''status'' = Some (PStr ''Available'')"
    "map_of attic_record ''status'' = Some (PStr ''Offline'')"
    by (simp_all add: office_record_def attic_record_def)
  show ?thesis
    using cm flt office_manual t1 t2 st up by simp
qed

subsection \<open>C4: the network ranges\<close>

lemma get_network_ranges_raised:
  "route_get_default e = Raised x \<Longrightarrow> get_network_ranges e = common_networks"
  by (simp add: get_network_ranges_def)

lemma get_network_ranges_failed:
  "route_get_default e = Completed returncode stdout \<Longrightarrow> returncode \<noteq> 0 \<Longrightarrow>
   get_network_ranges e = []"
  by (simp add: get_network_ranges_def)

lemma get_network_ranges_no_gateway:
  "route_get_default e = Completed 0 stdout \<Longrightarrow>
   find (\<lambda>line. str_in ''gateway:'' line) (split_char newline stdout) = None \<Longrightarrow>
   get_network_ranges e = []"
  by (simp add: get_network_ranges_def)

lemma get_network_ranges_not_parsed:
  assumes "route_get_default e = Completed 0 stdout"
    "find (\<lambda>line. str_in ''gateway:'' line) (split_char newline stdout) = Some line"
    "nth_opt (split_char CHR '':'' line) 1 = Some field"
    "ipv4_network_of e (join ''.'' (butlast (split_char CHR ''.'' (strip field))) @ ''.0/24'') = None"
  shows "get_network_ranges e = common_networks"
  using assms by (simp add: get_network_ranges_def)

lemma route_strings:
  "find (\<lambda>line. str_in ''gateway:'' line) (split_char newline ''   route to: default'') = None"
  "find (\<lambda>line. str_in ''gateway:'' line) (split_char newline ''    gateway: fe80::1%en0'')
     = Some ''    gateway: fe80::1%en0''"
  "nth_opt (split_char CHR '':'' ''    gateway: fe80::1%en0'') 1 = Some '' fe80''"
  "join ''.'' (butlast (split_char CHR ''.'' (strip '' fe80''))) @ ''.0/24'' = ''.0/24''"
  by code_simp+

text \<open>
  C4 says that \<open>_get_network_ranges\<close> never returns an empty list. The fallback to the
  four common networks is the body of \<open>except Exception\<close>: it is taken when the command
  cannot be run and when the gateway line does not give a network. When \<open>route\<close> exits
  with a code other than 0 (no default route), or prints no \<open>gateway:\<close> line, nothing is
  raised and the method returns the empty list it started with.
\<close>

theorem no_route_gives_no_ranges:
  "route_get_default quiet_env = Completed 1 []
   \<and> get_network_ranges quiet_env = []
   \<and> get_network_ranges (quiet_env\<lparr>route_get_default := Completed 0 ''   route to: default''\<rparr>) = []
   \<and> get_network_ranges (quiet_env\<lparr>route_get_default := Raised FileNotFoundError\<rparr>) = common_networks
   \<and> get_network_ranges (quiet_env\<lparr>route_get_default := Completed 0 ''    gateway: fe80::1%en0''\<rparr>)
        = common_networks
   \<and> discover_network_printers quiet_env = []"
proof -
  have r: "route_get_default quiet_env = Completed 1 []"
    by (simp add: quiet_env_def)
  then have a: "get_network_ranges quiet_env = []"
    by (rule get_network_ranges_failed) simp
  have b: "get_network_ranges (quiet_env\<lparr>route_get_default := Completed 0 ''   route to: default''\<rparr>) = []"
    by (rule get_network_ranges_no_gateway [OF _ route_strings(1)]) simp
  have c: "get_network_ranges (quiet_env\<lparr>route_get_default := Raised FileNotFoundError\<rparr>) = common_networks"
    by (rule get_network_ranges_raised) simp
  have d: "get_network_ranges (quiet_env\<lparr>route_get_default := Completed 0 ''    gateway: fe80::1%en0''\<rparr>)
      = common_networks"
    by (rule get_network_ranges_not_parsed [OF _ route_strings(2) route_strings(3)])
       (simp_all add: quiet_env_def)
  have "discover_network_printers quiet_env = []"
    using a by (simp add: discover_network_printers_def sweep_def submitted_hosts_def quiet_env_def)
  then show ?thesis
    using r a b c d by simp
qed

subsection \<open>C6: capabilities\<close>

lemma unique_loop_subseq:
  "unique_loop acc ps = Inr res \<Longrightarrow> \<exists>new. res = acc @ new \<and> subseq (map snd new) ps"
proof (induction ps arbitrary: acc)
  case Nil
  then show ?case by simp
next
  case (Cons p ps)
  from Cons.prems obtain u where u: "map_of p ''uri'' = Some u" and h: "hashable u"
    by (auto split: option.splits if_splits)
  show ?case
  proof (cases "map_of acc u = None")
    case True
    with Cons.prems u h have "unique_loop (acc @ [(u, p)]) ps = Inr res"
      by simp
    from Cons.IH [OF this] obtain new where "res = (acc @ [(u, p)]) @ new" "subseq (map snd new) ps"
      by blast
    then have "res = acc @ ((u, p) # new) \<and> subseq (map snd ((u, p) # new)) (p # ps)"
      by simp
    then show ?thesis by blast
  next
    case False
    with Cons.prems u h have "unique_loop acc ps = Inr res"
      by auto
    from Cons.IH [OF this] obtain new where "res = acc @ new" "subseq (map snd new) ps"
      by blast
    then show ?thesis by auto
  qed
qed

lemma remove_duplicates_subseq: "remove_duplicates ps = Inr out \<Longrightarrow> subseq out ps"
  using unique_loop_subseq [of "[]" ps]
  by (auto simp: remove_duplicates_def split: sum.splits)

lemma find_canon_printers_subseq:
  "find_canon_printers e = Inr out \<Longrightarrow>
   \<exists>mdns. discover_mdns_printers e = Inr mdns \<and> subseq out (gathered e mdns)"
  by (auto simp: find_canon_printers_def split: sum.splits dest: remove_duplicates_subseq)

lemma manual_no_capabilities: "list_all no_capabilities (get_manual_printers e)"
  by (auto simp: get_manual_printers_def manual_loop_eq manual_record_def no_capabilities_def
      list_all_iff split: option.splits)

lemma scan_ports_no_capabilities: "snd (scan_ports e ip ports) = Some r \<Longrightarrow> no_capabilities r"
  by (induction ports) (auto simp: no_capabilities_def split: option.splits if_splits)

lemma network_no_capabilities:
  assumes "completes_each_once e"
  shows "list_all no_capabilities (discover_network_printers e)"
proof -
  have "set (sweep e ranges) = set (collect (map (scan_host_for_ipp e) (submitted_hosts ranges)))"
    for ranges
    using mset_sweep [OF assms] by (metis set_mset_mset)
  then show ?thesis
    using scan_ports_no_capabilities
    by (auto simp: discover_network_printers_def list_all_iff set_collect scan_host_for_ipp_def)
qed

lemma mdns_no_capabilities:
  "discover_mdns_printers e = Inr mdns \<Longrightarrow> list_all no_capabilities mdns"
  by (auto simp: discover_mdns_printers_def list_all_iff mdns_line_def no_capabilities_def Let_def
      split: proc_result.splits if_splits)

lemma cache_only_facts:
  "completes_each_once cache_only_env"
  "system_printers cache_only_env = []"
  "discover_mdns_printers cache_only_env = Inr []"
  "get_manual_printers cache_only_env = [office_record_offline, attic_record]"
  by (simp_all add: cache_only_env_def quiet_env_def completes_each_once_def
      discover_mdns_printers_def get_manual_printers_def office_cache_def dict_get_def
      test_printer_connection_def office_record_offline_def attic_record_def)

lemma cache_only_network: "discover_network_printers cache_only_env = []"
proof -
  have "route_get_default cache_only_env = Completed 1 []"
    by (simp add: cache_only_env_def quiet_env_def)
  then have "get_network_ranges cache_only_env = []"
    by (rule get_network_ranges_failed) simp
  then show ?thesis
    by (simp add: discover_network_printers_def sweep_def submitted_hosts_def
        cache_only_env_def quiet_env_def)
qed

lemma cache_only_result:
  "find_canon_printers cache_only_env = Inr [office_record_offline, attic_record]"
proof -
  have g: "gathered cache_only_env [] = [office_record_offline, attic_record]"
    by (simp add: gathered_eq cache_only_facts cache_only_network)
  have u: "uri_of office_record_offline = Some (PStr ''ipp://192.168.1.5:631/ipp/print'')"
    "uri_of attic_record = Some (PStr ''ipp://192.168.1.77:631/ipp/print'')"
    by (simp_all add: uri_of_def office_record_offline_def attic_record_def)
  have "list_all has_str_uri [office_record_offline, attic_record]"
    by (simp add: has_str_uri_def u)
  then have "remove_duplicates [office_record_offline, attic_record]
      = Inr (keep_first {} [office_record_offline, attic_record])"
    by (rule remove_duplicates_keep_first)
  also have "keep_first {} [office_record_offline, attic_record] = [office_record_offline, attic_record]"
    by (simp add: u)
  finally show ?thesis
    by (simp add: find_canon_printers_def cache_only_facts g)
qed

lemma cache_only_no_capabilities:
  "map_of office_record_offline ''capabilities'' = None"
  "map_of attic_record ''capabilities'' = None"
  by (simp_all add: office_record_offline_def attic_record_def)

text \<open>
  C6 (as amended): \<open>get_printer_capabilities\<close> returns the same default descriptor for
  every uri (duplex and color true, at most 99 copies, the media A4, Letter, Legal, 4x6 and
  5x7, the qualities draft, normal and high), with no query of the device.
  \<open>find_canon_printers\<close> does not attach it: the list it returns is a sublist of the
  gathered contributions, each record as its producer built it, and the records of the
  manual, network-scan and mDNS producers have no \<open>capabilities\<close> key; so, when the
  system printers have none either, no returned record has one.
\<close>

theorem capabilities_are_not_attached:
  "get_printer_capabilities printer_uri = default_capabilities
   \<and> (find_canon_printers e = Inr out \<longrightarrow>
        (\<exists>mdns. discover_mdns_printers e = Inr mdns \<and> subseq out (gathered e mdns)))
   \<and> list_all no_capabilities (get_manual_printers e)
   \<and> (completes_each_once e \<longrightarrow> list_all no_capabilities (discover_network_printers e))
   \<and> (discover_mdns_printers e = Inr mdns \<longrightarrow> list_all no_capabilities mdns)
   \<and> (find_canon_printers e = Inr out \<and> completes_each_once e
        \<and> list_all no_capabilities (system_printers e) \<longrightarrow> list_all no_capabilities out)"
proof -
  have caps: "get_printer_capabilities printer_uri = default_capabilities"
    by (simp add: get_printer_capabilities_def default_capabilities_def)
  have all: "list_all no_capabilities out"
    if "find_canon_printers e = Inr out" "completes_each_once e"
      "list_all no_capabilities (system_printers e)"
  proof -
    from find_canon_printers_subseq [OF that(1)] obtain m where
      m: "discover_mdns_printers e = Inr m" and sub: "subseq out (gathered e m)"
      by blast
    have "list_all no_capabilities (gathered e m)"
      using manual_no_capabilities [of e] network_no_capabilities [OF that(2)]
        mdns_no_capabilities [OF m] that(3)
      by (simp add: gathered_eq)
    then show ?thesis
      using sub list_emb_set [of "(=)" out "gathered e m"] by (fastforce simp: list_all_iff)
  qed
  show ?thesis
    using caps find_canon_printers_subseq manual_no_capabilities network_no_capabilities
      mdns_no_capabilities all
    by blast
qed


text \<open>
  With the cache alone, \<open>find_canon_printers\<close> returns the two records of the cache as the
  producer built them.
\<close>

theorem capabilities_are_not_attached_witness:
  "get_printer_capabilities ''ipp://192.168.1.5:631/ipp/print'' = default_capabilities
   \<and> find_canon_printers cache_only_env = Inr [office_record_offline, attic_record]
   \<and> completes_each_once cache_only_env
   \<and> list_all no_capabilities (system_printers cache_only_env)
   \<and> discover_mdns_printers cache_only_env = Inr []
   \<and> subseq [office_record_offline, attic_record] (gathered cache_only_env [])
   \<and> list_all no_capabilities [office_record_offline, attic_record]"
proof -
  have sys: "list_all no_capabilities (system_printers cache_only_env)"
    by (simp add: cache_only_facts)
  from capabilities_are_not_attached [of "''ipp://192.168.1.5:631/ipp/print''" cache_only_env
      "[office_record_offline, attic_record]" "[]"]
  show ?thesis
    using cache_only_result cache_only_facts(1,3) sys by simp
qed

text \<open>
  C6 as stated has every record of the returned list carry the descriptor: the two
  records returned here have no \<open>capabilities\<close> key. \<open>get_printer_capabilities\<close> is called
  by the add-printer command of \<open>main.py\<close> only, when it saves a printer.
\<close>

theorem returned_records_without_capabilities_counterexample:
  "find_canon_printers cache_only_env = Inr [office_record_offline, attic_record]
   \<and> map_of office_record_offline ''capabilities'' = None
   \<and> map_of attic_record ''capabilities'' = None"
  using cache_only_result cache_only_no_capabilities by simp

subsection \<open>C5 and C8: which ports of a host are probed\<close>

lemma scan_ports_skip:
  "list_all (\<lambda>p. \<not> port_matches e ip p) before \<Longrightarrow>
   scan_ports e ip (before @ rest) = (before @ fst (scan_ports e ip rest), snd (scan_ports e ip rest))"
proof (induction before)
  case Nil
  then show ?case by simp
next
  case (Cons p before)
  then show ?case
    using scan_ports_no_match [of e ip p] by simp
qed

lemma scan_ports_none_match:
  "list_all (\<lambda>p. \<not> port_matches e ip p) ports \<Longrightarrow> scan_ports e ip ports = (ports, None)"
  using scan_ports_skip [of e ip ports "[]"] by simp

lemma scan_ports_cases:
  "scan_ports e ip (port # ports) =
     (if port_matches e ip port then ([port], snd (scan_ports e ip [port]))
      else (port # fst (scan_ports e ip ports), snd (scan_ports e ip ports)))"
  by (auto simp: port_matches_def split: option.splits)

lemma scan_ports_match_Some: "port_matches e ip port \<Longrightarrow> snd (scan_ports e ip [port]) \<noteq> None"
  by (auto simp: port_matches_def split: option.splits)

lemma probed_until_first_match:
  "fst (scan_ports e ip ports) =
     takeWhile (\<lambda>p. \<not> port_matches e ip p) ports
     @ take 1 (dropWhile (\<lambda>p. \<not> port_matches e ip p) ports)"
proof (induction ports)
  case Nil
  then show ?case by simp
next
  case (Cons port ports)
  then show ?case
    by (simp only: scan_ports_cases [of e ip port ports]) simp
qed

lemma no_record_iff_no_match:
  "snd (scan_ports e ip ports) = None \<longleftrightarrow> list_all (\<lambda>p. \<not> port_matches e ip p) ports"
proof (induction ports)
  case Nil
  then show ?case by simp
next
  case (Cons port ports)
  then show ?case
    using scan_ports_match_Some [of e ip port]
    by (simp only: scan_ports_cases [of e ip port ports]) auto
qed

lemma in_sweep_probes:
  "(ip, port) \<in> set (sweep_probes e ranges) \<longleftrightarrow>
     ip \<in> set (submitted_hosts ranges) \<and> port \<in> set (probed_ports e ip)"
  by (auto simp: sweep_probes_def)

lemma synthesized_name_is_canon: "is_canon_printer (''Canon Printer at '' @ ip)"
proof -
  have "lower (''Canon Printer at '' @ ip) = [] @ ''canon'' @ ('' printer at '' @ lower ip)"
    by (simp add: lower_def lower_char_def ascii_uppercase_def ascii_lowercase_def)
  moreover have "''canon'' \<in> set canon_keywords"
    by (simp add: canon_keywords_def)
  ultimately show ?thesis
    unfolding is_canon_printer_def Let_def any_keyword_in_iff by blast
qed


lemma sweep_no_responder:
  assumes "completes_each_once e" "\<forall>ip. scan_host_for_ipp e ip = None"
  shows "sweep e ranges = []"
proof -
  have "collect (map (scan_host_for_ipp e) hosts) = []" for hosts
    using assms(2) by (induction hosts) simp_all
  then have "mset (sweep e ranges) = {#}"
    using mset_sweep [OF assms(1)] by simp
  then show ?thesis by simp
qed

lemma in_discovered:
  assumes "completes_each_once e" "ip \<in> set (submitted_hosts (get_network_ranges e))"
    "scan_host_for_ipp e ip = Some r"
  shows "r \<in> set (discover_network_printers e)"
proof -
  have "set (discover_network_printers e)
      = set (collect (map (scan_host_for_ipp e) (submitted_hosts (get_network_ranges e))))"
    using mset_sweep [OF assms(1)] unfolding discover_network_printers_def by (metis set_mset_mset)
  then show ?thesis
    using assms(2,3) by (force simp: set_collect)
qed

subsection \<open>The scenarios of one answering host\<close>

lemma answering_host_facts:
  "ipp_ports pixma_env = [631, 9100, 8080, 80]"
  "ipp_ports plain_env = [631, 9100, 8080, 80]"
  "ipp_ports home_env = [631, 9100, 8080, 80]"
  "is_port_open pixma_env ip port 1 \<longleftrightarrow> ip = ''192.168.1.5'' \<and> port = 631"
  "is_port_open plain_env ip port 1 \<longleftrightarrow> ip = ''192.168.1.5'' \<and> port = 631"
  "is_port_open home_env ip port 1 \<longleftrightarrow> ip = ''192.168.1.5'' \<and> port = 631"
  "http_get pixma_env ''http://192.168.1.5:631'' = Some (200, pixma_banner)"
  "http_get plain_env ''http://192.168.1.5:631'' = Some (200, plain_banner)"
  "http_get home_env ''http://192.168.1.5:631'' = Some (200, home_banner)"
  "completes_each_once pixma_env" "completes_each_once plain_env" "completes_each_once home_env"
  by (simp_all add: pixma_env_def plain_env_def home_env_def quiet_env_def is_port_open_def
      completes_each_once_def)

lemma banner_strings:
  "any_keyword_in (lower pixma_banner)"
  "any_keyword_in (lower plain_banner)"
  "any_keyword_in (lower home_banner)"
  "display_name ''192.168.1.5'' pixma_banner = ''Canon PIXMA TS3400''"
  "re_search title_pattern plain_banner = None"
  "display_name ''192.168.1.5'' plain_banner = ''Canon Printer at 192.168.1.5''"
  "display_name ''192.168.1.5'' home_banner = ''Home''"
  "\<not> is_canon_printer ''Home''"
  "is_canon_printer ''Canon Printer at 192.168.1.5''"
  "extract_model ''Canon Printer at 192.168.1.5'' = ''Canon Printer''"
  by code_simp+

lemma closed_ports_do_not_match:
  "\<not> is_port_open e ip port 1 \<Longrightarrow> \<not> port_matches e ip port"
  by (simp add: port_matches_def)

lemma home_no_match: "list_all (\<lambda>p. \<not> port_matches home_env ip p) (ipp_ports home_env)"
proof -
  have "\<not> port_matches home_env ''192.168.1.5'' 631"
    using port_matches_banner [of home_env "''192.168.1.5''" 631 home_banner]
      answering_host_facts(6,9) banner_strings(7,8) pixma_strings(1)
    by simp
  then have "\<not> port_matches home_env ip port" for port
    using closed_ports_do_not_match [of home_env ip port] answering_host_facts(6) [of ip port]
    by blast
  then show ?thesis
    by (simp add: list_all_iff)
qed

lemma home_network: "discover_network_printers home_env = []"
proof -
  have "\<forall>ip. scan_host_for_ipp home_env ip = None"
    using home_no_match scan_ports_none_match [of home_env _ "ipp_ports home_env"]
    by (simp add: scan_host_for_ipp_def)
  then show ?thesis
    using sweep_no_responder [OF answering_host_facts(12)]
    by (simp add: discover_network_printers_def)
qed

lemma pixma_match: "port_matches pixma_env ''192.168.1.5'' 631"
  using port_matches_banner [of pixma_env "''192.168.1.5''" 631 pixma_banner]
    answering_host_facts(4,7) banner_strings(1,4) pixma_strings(1,3)
  by simp

lemma plain_match: "port_matches plain_env ''192.168.1.5'' 631"
  using port_matches_banner [of plain_env "''192.168.1.5''" 631 plain_banner]
    answering_host_facts(5,8) banner_strings(2,6,9) pixma_strings(1)
  by simp

subsection \<open>C5: which endpoints give a record\<close>

text \<open>
  C5 (as amended): for an endpoint that accepts the connection and whose page is fetched
  with status 200, the loop of \<open>_scan_host_for_ipp\<close> stops at this port exactly when the
  lower-cased body contains a vendor keyword and the display name itself passes the
  vendor test. The display name is the text of the HTML title when there is one, and
  \<open>Canon Printer at <ip>\<close> otherwise, which always passes. When no earlier configured port
  of the host has stopped the loop, the record of this endpoint is produced, with this
  display name, the uri of the endpoint, the status \<open>Available\<close> and the source
  \<open>network_scan\<close> (and, for an ASCII name, the model extracted from the name); an endpoint
  whose body has no keyword, or whose title has none, produces nothing, and a host none of
  whose ports passes gives no record.
\<close>

theorem candidate_needs_vendor_in_body_and_name:
  assumes "is_port_open e ip port 1"
    and "http_get e (''http://'' @ ip @ '':'' @ str_int port) = Some (200, body)"
  shows "(port_matches e ip port \<longleftrightarrow>
            any_keyword_in (lower body) \<and> is_canon_printer (display_name ip body))
       \<and> (ipp_ports e = before @ port # after
            \<and> list_all (\<lambda>p. \<not> port_matches e ip p) before \<and> port_matches e ip port
            \<longrightarrow> (\<exists>model.
                  scan_host_for_ipp e ip =
                    Some [(''name'', PStr (display_name ip body)),
                          (''uri'', PStr (''ipp://'' @ ip @ '':'' @ str_int port @ ''/ipp/print'')),
                          (''status'', PStr ''Available''),
                          (''model'', PStr model),
                          (''source'', PStr ''network_scan'')]
                  \<and> (is_ascii (display_name ip body)
                       \<longrightarrow> model = extract_model (display_name ip body))))
       \<and> (re_search title_pattern body = Some m \<longrightarrow> display_name ip body = group_at 7 1 m)
       \<and> (re_search title_pattern body = None
            \<longrightarrow> display_name ip body = ''Canon Printer at '' @ ip
              \<and> is_canon_printer (display_name ip body))
       \<and> (list_all (\<lambda>p. \<not> port_matches e ip p) (ipp_ports e) \<longrightarrow> scan_host_for_ipp e ip = None)"
proof -
  have a: "port_matches e ip port \<longleftrightarrow>
      any_keyword_in (lower body) \<and> is_canon_printer (display_name ip body)"
    using assms by (rule port_matches_banner)
  have b: "scan_host_for_ipp e ip = Some (network_record ip port body)"
    if "ipp_ports e = before @ port # after" "list_all (\<lambda>p. \<not> port_matches e ip p) before"
      "port_matches e ip port"
    using that scan_ports_skip [of e ip before "port # after"]
      scan_ports_match [OF that(3) assms(2), of after]
    by (simp add: scan_host_for_ipp_def)
  have c: "display_name ip body = group_at 7 1 m" if "re_search title_pattern body = Some m"
    using that by (simp add: display_name_def)
  have d: "display_name ip body = ''Canon Printer at '' @ ip \<and> is_canon_printer (display_name ip body)"
    if "re_search title_pattern body = None"
    using that synthesized_name_is_canon [of ip] by (simp add: display_name_def)
  have f: "scan_host_for_ipp e ip = None" if "list_all (\<lambda>p. \<not> port_matches e ip p) (ipp_ports e)"
    using that scan_ports_none_match [of e ip "ipp_ports e"] by (simp add: scan_host_for_ipp_def)
  from a b c d f show ?thesis
    unfolding network_record_def by blast
qed


text \<open>
  Three pages at 192.168.1.5, port 631: one with the title \<open>Canon PIXMA TS3400\<close>, one with
  no title, and one that names the vendor in its body and has the title \<open>Home\<close>.
\<close>

theorem candidate_needs_vendor_in_body_and_name_witness:
  "is_port_open pixma_env ''192.168.1.5'' 631 1
   \<and> http_get pixma_env (''http://'' @ ''192.168.1.5'' @ '':'' @ str_int 631) = Some (200, pixma_banner)
   \<and> port_matches pixma_env ''192.168.1.5'' 631
   \<and> is_ascii (display_name ''192.168.1.5'' pixma_banner)
   \<and> scan_host_for_ipp pixma_env ''192.168.1.5'' = Some pixma_record
   \<and> is_port_open plain_env ''192.168.1.5'' 631 1
   \<and> http_get plain_env (''http://'' @ ''192.168.1.5'' @ '':'' @ str_int 631) = Some (200, plain_banner)
   \<and> re_search title_pattern plain_banner = None
   \<and> display_name ''192.168.1.5'' plain_banner = ''Canon Printer at 192.168.1.5''
   \<and> scan_host_for_ipp plain_env ''192.168.1.5'' = Some plain_record
   \<and> is_port_open home_env ''192.168.1.5'' 631 1
   \<and> http_get home_env (''http://'' @ ''192.168.1.5'' @ '':'' @ str_int 631) = Some (200, home_banner)
   \<and> any_keyword_in (lower home_banner)
   \<and> \<not> is_canon_printer (display_name ''192.168.1.5'' home_banner)
   \<and> \<not> port_matches home_env ''192.168.1.5'' 631
   \<and> scan_host_for_ipp home_env ''192.168.1.5'' = None"
proof -
  let ?h = "''192.168.1.5''"
  have op: "is_port_open pixma_env ?h 631 1" "is_port_open plain_env ?h 631 1"
    "is_port_open home_env ?h 631 1"
    using answering_host_facts(4-6) by simp_all
  have get: "http_get pixma_env (''http://'' @ ?h @ '':'' @ str_int 631) = Some (200, pixma_banner)"
    "http_get plain_env (''http://'' @ ?h @ '':'' @ str_int 631) = Some (200, plain_banner)"
    "http_get home_env (''http://'' @ ?h @ '':'' @ str_int 631) = Some (200, home_banner)"
    by (simp_all only: pixma_strings answering_host_facts)
  have ascii: "is_ascii ''Canon PIXMA TS3400''" "is_ascii ''Canon Printer at 192.168.1.5''"
    by (simp_all add: is_ascii_def)
  have split: "[631, 9100, 8080, 80] = [] @ 631 # [9100, 8080, (80::int)]"
    by simp
  note pixma = candidate_needs_vendor_in_body_and_name [OF op(1) get(1), of "[]" "[9100, 8080, 80]"]
  note plain = candidate_needs_vendor_in_body_and_name [OF op(2) get(2), of "[]" "[9100, 8080, 80]"]
  note home = candidate_needs_vendor_in_body_and_name [OF op(3) get(3)]
  have si: "str_int 631 = ''631''"
    by code_simp
  have r1: "scan_host_for_ipp pixma_env ?h = Some pixma_record"
    using pixma pixma_match ascii(1)
    by (auto simp: answering_host_facts(1) banner_strings pixma_strings pixma_record_def si)
  have r2: "scan_host_for_ipp plain_env ?h = Some plain_record"
    using plain plain_match ascii(2)
    by (auto simp: answering_host_facts(2) banner_strings pixma_strings plain_record_def si)
  have r3: "\<not> port_matches home_env ?h 631"
    using home by (simp add: banner_strings)
  have r4: "scan_host_for_ipp home_env ?h = None"
    using home home_no_match by simp
  show ?thesis
    using op get r1 r2 r3 r4 pixma_match ascii
    by (simp add: banner_strings)
qed

text \<open>
  C5 as stated has a record produced for every reachable endpoint whose lower-cased body
  contains a keyword. The page of \<open>home_env\<close> contains \<open>canon\<close> and \<open>pixma\<close> in its body;
  its title \<open>Home\<close> fails the second vendor test in \<open>_scan_host_for_ipp\<close>, and the sweep
  produces nothing.
\<close>

theorem vendor_body_without_vendor_title_counterexample:
  "is_port_open home_env ''192.168.1.5'' 631 1
   \<and> http_get home_env ''http://192.168.1.5:631'' = Some (200, home_banner)
   \<and> any_keyword_in (lower home_banner)
   \<and> scan_host_for_ipp home_env ''192.168.1.5'' = None
   \<and> discover_network_printers home_env = []"
proof -
  have "scan_host_for_ipp home_env ''192.168.1.5'' = None"
    using home_no_match scan_ports_none_match [of home_env _ "ipp_ports home_env"]
    by (simp add: scan_host_for_ipp_def)
  then show ?thesis
    using home_network answering_host_facts(6)
    by (simp add: answering_host_facts(9) banner_strings)
qed

subsection \<open>C8: what a sweep probes\<close>

text \<open>
  C8 (as amended): a sweep submits one task for every address of the resolved ranges and
  reads the result of every task before it returns: the record of every host that gives
  one is in the result, whatever the other hosts gave. Within the task of one host the
  configured ports are probed in list order up to and including the first port that is
  open and passes the vendor tests; the later ports of this host are not probed, and every
  port is probed on a host that gives no record.
\<close>

theorem sweep_scans_every_host_until_first_match:
  assumes "completes_each_once e"
  shows "mset (discover_network_printers e)
           = mset (collect (map (scan_host_for_ipp e) (submitted_hosts (get_network_ranges e))))
       \<and> (ip \<in> set (submitted_hosts (get_network_ranges e)) \<and> scan_host_for_ipp e ip = Some r
            \<longrightarrow> r \<in> set (discover_network_printers e))
       \<and> ((ip, port) \<in> set (sweep_probes e ranges)
            \<longleftrightarrow> ip \<in> set (submitted_hosts ranges) \<and> port \<in> set (probed_ports e ip))
       \<and> probed_ports e ip =
            takeWhile (\<lambda>p. \<not> port_matches e ip p) (ipp_ports e)
            @ take 1 (dropWhile (\<lambda>p. \<not> port_matches e ip p) (ipp_ports e))
       \<and> (scan_host_for_ipp e ip = None \<longleftrightarrow> list_all (\<lambda>p. \<not> port_matches e ip p) (ipp_ports e))
       \<and> (scan_host_for_ipp e ip = None \<longrightarrow> probed_ports e ip = ipp_ports e)
       \<and> (ipp_ports e = before @ port # after
            \<and> list_all (\<lambda>p. \<not> port_matches e ip p) before \<and> port_matches e ip port
            \<longrightarrow> probed_ports e ip = before @ [port])"
proof -
  have a: "mset (discover_network_printers e)
      = mset (collect (map (scan_host_for_ipp e) (submitted_hosts (get_network_ranges e))))"
    using mset_sweep [OF assms] by (simp add: discover_network_printers_def)
  have b: "r \<in> set (discover_network_printers e)"
    if "ip \<in> set (submitted_hosts (get_network_ranges e))" "scan_host_for_ipp e ip = Some r"
    using assms that by (rule in_discovered)
  have c: "probed_ports e ip =
      takeWhile (\<lambda>p. \<not> port_matches e ip p) (ipp_ports e)
      @ take 1 (dropWhile (\<lambda>p. \<not> port_matches e ip p) (ipp_ports e))"
    unfolding probed_ports_def by (rule probed_until_first_match)
  have d: "scan_host_for_ipp e ip = None \<longleftrightarrow> list_all (\<lambda>p. \<not> port_matches e ip p) (ipp_ports e)"
    unfolding scan_host_for_ipp_def by (rule no_record_iff_no_match)
  have f: "probed_ports e ip = ipp_ports e" if "scan_host_for_ipp e ip = None"
    using that d scan_ports_none_match [of e ip "ipp_ports e"] by (simp add: probed_ports_def)
  have g: "probed_ports e ip = before @ [port]"
    if "ipp_ports e = before @ port # after" "list_all (\<lambda>p. \<not> port_matches e ip p) before"
      "port_matches e ip port"
    using that scan_ports_skip [of e ip before "port # after"] scan_ports_cases [of e ip port after]
    by (simp add: probed_ports_def)
  from a b c d f g in_sweep_probes [of ip port e ranges] show ?thesis
    by blast
qed

text \<open>
  In \<open>pixma_env\<close>, with the four default ports, the host 192.168.1.5 answers on its first
  port and the host 192.168.1.6 on none.
\<close>

theorem sweep_scans_every_host_until_first_match_witness:
  "completes_each_once pixma_env
   \<and> ipp_ports pixma_env = [631, 9100, 8080, 80]
   \<and> ''192.168.1.5'' \<in> set (submitted_hosts (get_network_ranges pixma_env))
   \<and> scan_host_for_ipp pixma_env ''192.168.1.5'' = Some pixma_record
   \<and> pixma_record \<in> set (discover_network_printers pixma_env)
   \<and> port_matches pixma_env ''192.168.1.5'' 631
   \<and> probed_ports pixma_env ''192.168.1.5'' = [631]
   \<and> (''192.168.1.5'', 631) \<in> set (sweep_probes pixma_env (get_network_ranges pixma_env))
   \<and> scan_host_for_ipp pixma_env ''192.168.1.6'' = None
   \<and> probed_ports pixma_env ''192.168.1.6'' = [631, 9100, 8080, 80]"
proof -
  let ?h = "''192.168.1.5''"
  note once = answering_host_facts(10)
  have host: "?h \<in> set (submitted_hosts (get_network_ranges pixma_env))"
    using hosts_192_168_1(2) by (simp add: pixma_ranges)
  have split: "ipp_ports pixma_env = [] @ 631 # [9100, 8080, 80]"
    by (simp add: answering_host_facts)
  have url: "http_get pixma_env (''http://'' @ ?h @ '':'' @ str_int 631) = Some (200, pixma_banner)"
    by (simp only: pixma_strings answering_host_facts)
  have "scan_ports pixma_env ?h (631 # [9100, 8080, 80]) = ([631], Some (network_record ?h 631 pixma_banner))"
    using pixma_match url by (rule scan_ports_match)
  moreover have "network_record ?h 631 pixma_banner = pixma_record"
    unfolding network_record_def pixma_record_def banner_strings pixma_strings ..
  ultimately have scan5: "scan_host_for_ipp pixma_env ?h = Some pixma_record"
    by (simp add: scan_host_for_ipp_def answering_host_facts)
  have no6: "list_all (\<lambda>p. \<not> port_matches pixma_env ''192.168.1.6'' p) (ipp_ports pixma_env)"
    using closed_ports_do_not_match [of pixma_env "''192.168.1.6''"] answering_host_facts(4)
    by (simp add: list_all_iff answering_host_facts(1))
  note five = sweep_scans_every_host_until_first_match
    [OF once, of ?h pixma_record 631 "get_network_ranges pixma_env" "[]" "[9100, 8080, 80]"]
  note six = sweep_scans_every_host_until_first_match [OF once, of "''192.168.1.6''"]
  have p5: "probed_ports pixma_env ?h = [631]"
    using five split pixma_match by simp
  have in5: "pixma_record \<in> set (discover_network_printers pixma_env)"
    using five host scan5 by blast
  have pr5: "(?h, 631) \<in> set (sweep_probes pixma_env (get_network_ranges pixma_env))"
    using five host p5 by simp
  have s6: "scan_host_for_ipp pixma_env ''192.168.1.6'' = None"
    using six no6 by blast
  have p6: "probed_ports pixma_env ''192.168.1.6'' = [631, 9100, 8080, 80]"
    using six s6 by (simp add: answering_host_facts)
  show ?thesis
    using once host scan5 in5 pixma_match p5 pr5 s6 p6
    by (simp add: answering_host_facts)
qed

text \<open>
  C8 as stated has the full cross-product of addresses and ports probed. In \<open>pixma_env\<close>
  the address 192.168.1.5 is in the resolved range and 9100 is a configured port, and the
  sweep never probes this pair: the loop over the ports returned at port 631.
\<close>

theorem later_ports_not_probed_counterexample:
  "get_network_ranges pixma_env = [net_192_168_1]
   \<and> ''192.168.1.5'' \<in> set (submitted_hosts (get_network_ranges pixma_env))
   \<and> 9100 \<in> set (ipp_ports pixma_env)
   \<and> probed_ports pixma_env ''192.168.1.5'' = [631]
   \<and> (''192.168.1.5'', 9100) \<notin> set (sweep_probes pixma_env (get_network_ranges pixma_env))"
proof -
  let ?h = "''192.168.1.5''"
  have url: "http_get pixma_env (''http://'' @ ?h @ '':'' @ str_int 631) = Some (200, pixma_banner)"
    by (simp only: pixma_strings answering_host_facts)
  have "scan_ports pixma_env ?h (631 # [9100, 8080, 80]) = ([631], Some (network_record ?h 631 pixma_banner))"
    using pixma_match url by (rule scan_ports_match)
  then have p: "probed_ports pixma_env ?h = [631]"
    by (simp add: probed_ports_def answering_host_facts)
  then have "(?h, 9100) \<notin> set (sweep_probes pixma_env (get_network_ranges pixma_env))"
    by (simp add: in_sweep_probes)
  then show ?thesis
    using p hosts_192_168_1(2) by (simp add: pixma_ranges answering_host_facts)
qed

end
